theory Spec2Isabelle
  imports Main
begin

section \<open>Strings and the Unicode tables\<close>

text \<open>
  A Python \<open>str\<close> is a sequence of Unicode code points, so a string is a list of
  natural numbers here (an Isabelle \<open>char\<close> is a byte and could not hold the Chinese
  keywords of \<open>ai_service.py\<close>). \<open>ascii\<close> turns an Isabelle string literal into such a
  string; keywords outside ASCII are written as code point lists, with the code points
  named in a comment.
\<close>

type_synonym ustr = "nat list"

definition ascii :: "string \<Rightarrow> ustr" where
  "ascii s = map of_char s"

text \<open>
  \<open>str.lower\<close>, \<open>str.strip\<close>, \<open>int\<close> and the classes \<open>\d\<close>, \<open>\s\<close>, \<open>\w\<close> of module
  \<open>re\<close> read the Unicode character database of the interpreter. The database is not part
  of the repository, so every function that depends on it takes it as its first argument:
  \<^item> \<open>u_lower\<close> is \<open>str.lower\<close> (a function on whole strings: lowercasing can change the
    length, and depends on context for the Greek final sigma);
  \<^item> \<open>u_isspace\<close> is \<open>str.isspace\<close> on one code point (the class \<open>\s\<close>, and what
    \<open>str.strip\<close> removes);
  \<^item> \<open>u_isdecimal\<close> is the class \<open>\d\<close> and \<open>u_digit\<close> the value \<open>int\<close> gives to such a digit;
  \<^item> \<open>u_isalnum\<close> is \<open>str.isalnum\<close> on one code point (\<open>\w\<close> is this or an underscore);
  \<^item> \<open>u_ci_eq p c\<close> says that pattern character \<open>p\<close> matches text character \<open>c\<close> under
    \<open>re.IGNORECASE\<close>;
  \<^item> \<open>u_isprintable\<close> is \<open>str.isprintable\<close> on one code point, which \<open>repr\<close> consults for the
    characters outside ASCII.
\<close>

record unicode =
  u_lower :: "ustr \<Rightarrow> ustr"
  u_isspace :: "nat \<Rightarrow> bool"
  u_isdecimal :: "nat \<Rightarrow> bool"
  u_digit :: "nat \<Rightarrow> nat"
  u_isalnum :: "nat \<Rightarrow> bool"
  u_ci_eq :: "nat \<Rightarrow> nat \<Rightarrow> bool"
  u_isprintable :: "nat \<Rightarrow> bool"

text \<open>
  The tables restricted to ASCII and the CJK Unified Ideographs (U+4E00 to U+9FFF), where
  they are known without the database: ideographs are alphanumeric and printable and have
  no case. The white space is the full list of \<open>str.isspace\<close>. These tables serve to run the functions on
  concrete inputs drawn from those ranges.
\<close>

definition ascii_lower :: "nat \<Rightarrow> nat" where
  "ascii_lower c = (if 65 \<le> c \<and> c \<le> 90 then c + 32 else c)"

definition space_points :: "nat list" where
  "space_points = [9, 10, 11, 12, 13, 28, 29, 30, 31, 32, 133, 160, 5760,
     8192, 8193, 8194, 8195, 8196, 8197, 8198, 8199, 8200, 8201, 8202,
     8232, 8233, 8239, 8287, 12288]"

definition ascii_cjk :: unicode where
  "ascii_cjk = \<lparr>
     u_lower = map ascii_lower,
     u_isspace = (\<lambda>c. c \<in> set space_points),
     u_isdecimal = (\<lambda>c. 48 \<le> c \<and> c \<le> 57),
     u_digit = (\<lambda>c. c - 48),
     u_isalnum = (\<lambda>c. (48 \<le> c \<and> c \<le> 57) \<or> (65 \<le> c \<and> c \<le> 90) \<or> (97 \<le> c \<and> c \<le> 122)
                        \<or> (19968 \<le> c \<and> c \<le> 40959)),
     u_ci_eq = (\<lambda>p c. ascii_lower p = ascii_lower c),
     u_isprintable = (\<lambda>c. (32 \<le> c \<and> c \<le> 126) \<or> (19968 \<le> c \<and> c \<le> 40959)) \<rparr>"

text \<open>
  What a theorem needs to know of the tables when it follows a lowercase ASCII word
  through \<open>strip\<close> and \<open>lower\<close>: on strings of ASCII the tables are the ASCII ones.
\<close>

definition ascii_conformant :: "unicode \<Rightarrow> bool" where
  "ascii_conformant U \<longleftrightarrow>
     (\<forall>s. list_all (\<lambda>c. c < 128) s \<longrightarrow> u_lower U s = map ascii_lower s) \<and>
     (\<forall>c. c < 128 \<longrightarrow> u_isspace U c = (c \<in> set space_points))"

text \<open>
  \<open>str.lower\<close> works on each side of a space by itself: a space is neither cased nor
  case-ignorable, so no context rule (the Greek final sigma) looks across it. This is
  what a theorem needs to know of \<open>u_lower\<close> to follow a keyword of the title or of the
  description into the text \<open>f"{title} {description}".lower()\<close>.
\<close>

definition lower_splits_at_space :: "unicode \<Rightarrow> bool" where
  "lower_splits_at_space U \<longleftrightarrow>
     (\<forall>a b. u_lower U (a @ [32] @ b) = u_lower U a @ [32] @ u_lower U b)"

subsection \<open>String operations of Python\<close>

text \<open>\<open>kw in s\<close> on strings: \<open>kw\<close> occurs in \<open>s\<close> as a contiguous substring.\<close>

fun contains :: "ustr \<Rightarrow> ustr \<Rightarrow> bool" where
  "contains [] kw = (kw = [])"
| "contains (c # cs) kw = (take (length kw) (c # cs) = kw \<or> contains cs kw)"

text \<open>\<open>s.startswith(x)\<close> and \<open>s.endswith(x)\<close>\<close>

definition startswith :: "ustr \<Rightarrow> ustr \<Rightarrow> bool" where
  "startswith s x \<longleftrightarrow> take (length x) s = x"

definition endswith :: "ustr \<Rightarrow> ustr \<Rightarrow> bool" where
  "endswith s x \<longleftrightarrow> length x \<le> length s \<and> drop (length s - length x) s = x"

text \<open>\<open>any(word in content for word in keywords)\<close>\<close>

definition any_in :: "ustr list \<Rightarrow> ustr \<Rightarrow> bool" where
  "any_in keywords content = list_ex (contains content) keywords"

text \<open>\<open>s.strip()\<close>: leading and trailing white space removed.\<close>

definition py_strip :: "unicode \<Rightarrow> ustr \<Rightarrow> ustr" where
  "py_strip U s = rev (dropWhile (u_isspace U) (rev (dropWhile (u_isspace U) s)))"

text \<open>\<open>int(ds)\<close> on a group matched by \<open>\d{1,2}\<close>: every character is a decimal digit, so
  the conversion cannot fail.\<close>

definition py_int :: "unicode \<Rightarrow> ustr \<Rightarrow> nat" where
  "py_int U ds = foldl (\<lambda>a c. 10 * a + u_digit U c) 0 ds"

text \<open>\<open>str(n)\<close> for an integer \<open>n \<ge> 0\<close>, its decimal digits, and \<open>"%0wd" % n\<close>, the same
  filled with zeros on the left up to the width \<open>w\<close>.\<close>

fun decimal :: "nat \<Rightarrow> ustr" where
  "decimal n = (if n < 10 then [48 + n] else decimal (n div 10) @ [48 + n mod 10])"

declare decimal.simps [simp del]

definition zero_pad :: "nat \<Rightarrow> nat \<Rightarrow> ustr" where
  "zero_pad w n = replicate (w - length (decimal n)) 48 @ decimal n"

text \<open>\<open>"%0wx" % n\<close> for \<open>n < 16 ^ w\<close>: \<open>w\<close> hexadecimal digits, the letters in lowercase.\<close>

definition hex_digit :: "nat \<Rightarrow> nat" where
  "hex_digit d = (if d < 10 then 48 + d else 87 + d)"

definition hex_pad :: "nat \<Rightarrow> nat \<Rightarrow> ustr" where
  "hex_pad w n = map (\<lambda>i. hex_digit ((n div 16 ^ i) mod 16)) (rev [0..<w])"

text \<open>
  \<open>repr(s)\<close> of a string. The quote is the apostrophe (39), or the double quote (34) when
  the string holds an apostrophe and no double quote. The quote and the backslash (92)
  are escaped with a backslash; tab, line feed and carriage return are written
  \<^verbatim>\<open>\t\<close>, \<^verbatim>\<open>\n\<close>, \<^verbatim>\<open>\r\<close>; the other control characters of ASCII and the characters outside
  ASCII that are not printable are written \<^verbatim>\<open>\xhh\<close>, \<^verbatim>\<open>\uhhhh\<close> or \<^verbatim>\<open>\Uhhhhhhhh\<close>; every other
  character stands for itself.
\<close>

definition repr_char :: "unicode \<Rightarrow> nat \<Rightarrow> nat \<Rightarrow> ustr" where
  "repr_char U quote c =
     (if c = quote \<or> c = 92 then [92, c]
      else if c = 9 then [92, 116]
      else if c = 10 then [92, 110]
      else if c = 13 then [92, 114]
      else if c < 32 \<or> c = 127 then [92, 120] @ hex_pad 2 c
      else if c < 127 then [c]
      else if u_isprintable U c then [c]
      else if c \<le> 255 then [92, 120] @ hex_pad 2 c
      else if c \<le> 65535 then [92, 117] @ hex_pad 4 c
      else [92, 85] @ hex_pad 8 c)"

definition py_repr :: "unicode \<Rightarrow> ustr \<Rightarrow> ustr" where
  "py_repr U s =
     (let quote = (if 39 \<in> set s \<and> 34 \<notin> set s then 34 else 39)
      in [quote] @ concat (map (repr_char U quote) s) @ [quote])"

text \<open>\<open>sep.join(xs)\<close>\<close>

fun py_join :: "ustr \<Rightarrow> ustr list \<Rightarrow> ustr" where
  "py_join sep [] = []"
| "py_join sep [x] = x"
| "py_join sep (x # y # ys) = x @ sep @ py_join sep (y # ys)"

section \<open>Priority inference and normalisation\<close>

text \<open>\<open>class TaskPriority(str, Enum)\<close> of \<open>schemas.py\<close>, and its \<open>.value\<close>.\<close>

datatype priority = LOW | MEDIUM | HIGH

fun priority_value :: "priority \<Rightarrow> ustr" where
  "priority_value LOW = ascii ''low''"
| "priority_value MEDIUM = ascii ''medium''"
| "priority_value HIGH = ascii ''high''"

text \<open>
  The keyword lists of \<open>_get_fallback_priority\<close>. The Chinese entries are, in order:
  U+7D27 U+6025 (urgent), U+91CD U+8981 (important), U+5F88 U+91CD U+8981 (very important),
  U+5C3D U+5FEB (as soon as possible), U+7ACB U+5373 (at once), U+5FC5 U+987B (must),
  U+4F18 U+5148 U+7EA7 U+9AD8 and U+9AD8 U+4F18 U+5148 U+7EA7 (priority high, high priority);
  U+4E0D U+6025 (not urgent), U+6709 U+7A7A (when free), U+968F U+610F (as you like),
  U+4F11 U+95F2 (leisure), U+4F18 U+5148 U+7EA7 U+4F4E and U+4F4E U+4F18 U+5148 U+7EA7
  (priority low, low priority).
\<close>

definition high_keywords :: "ustr list" where
  "high_keywords =
    [[32039, 24613], [37325, 35201], [24456, 37325, 35201], [23613, 24555],
     [31435, 21363], [24517, 39035], [20248, 20808, 32423, 39640],
     [39640, 20248, 20808, 32423],
     ascii ''urgent'', ascii ''important'', ascii ''critical'', ascii ''asap'',
     ascii ''as soon as possible'', ascii ''high priority'', ascii ''priority high'']"

definition low_keywords :: "ustr list" where
  "low_keywords =
    [[19981, 24613], [26377, 31354], [38543, 24847], [20241, 38386],
     [20248, 20808, 32423, 20302], [20302, 20248, 20808, 32423],
     ascii ''low priority'', ascii ''priority low'', ascii ''whenever'',
     ascii ''optional'', ascii ''leisure'']"

text \<open>\<open>f"{title} {description or ''}".lower()\<close>, the text that the keyword scans read.\<close>

definition content_of :: "unicode \<Rightarrow> ustr \<Rightarrow> ustr option \<Rightarrow> ustr" where
  "content_of U title description =
     u_lower U (title @ [32] @ (case description of None \<Rightarrow> [] | Some d \<Rightarrow> d))"

definition get_fallback_priority :: "unicode \<Rightarrow> ustr \<Rightarrow> ustr option \<Rightarrow> priority \<times> ustr" where
  "get_fallback_priority U title description =
     (let content = content_of U title description in
      if any_in high_keywords content
        then (HIGH, ascii ''Based on keywords: contains urgent/important words'')
      else if any_in low_keywords content
        then (LOW, ascii ''Based on keywords: contains low priority words'')
      else (MEDIUM, ascii ''Based on keywords: default medium priority''))"

section \<open>Regular expressions with the semantics of module re\<close>

text \<open>
  The constructs that the patterns of \<open>ai_service.py\<close> use. An atom matches one character:
  a literal, \<open>\d\<close>, \<open>\s\<close> or a set \<open>[...]\<close>. \<open>Star\<close> is the greedy \<open>*\<close> on an atom (the
  patterns repeat nothing but \<open>\s\<close>), \<open>Opt\<close> the greedy \<open>?\<close>, \<open>Grp n\<close> the capturing group
  number \<open>n\<close> and \<open>WordB\<close> the assertion \<open>\b\<close>.
\<close>

datatype atom = Lit nat | Digit | Space | OneOf "nat list"

datatype rx = Eps | Atom atom | Seq rx rx | Alt rx rx | Opt rx | Star atom
  | Grp nat rx | WordB

text \<open>
  The state of a match attempt: the character before the current position (\<open>None\<close> at the
  start of the text; \<open>\b\<close> reads it), the text still to be read, and the text of the groups
  closed so far, the most recent first.
\<close>

type_synonym groups = "(nat \<times> ustr) list"
type_synonym mstate = "nat option \<times> ustr \<times> groups"

fun atom_ok :: "unicode \<Rightarrow> bool \<Rightarrow> atom \<Rightarrow> nat \<Rightarrow> bool" where
  "atom_ok U ic (Lit p) c = (if ic then u_ci_eq U p c else p = c)"
| "atom_ok U ic Digit c = u_isdecimal U c"
| "atom_ok U ic Space c = u_isspace U c"
| "atom_ok U ic (OneOf ps) c = (if ic then list_ex (\<lambda>p. u_ci_eq U p c) ps else c \<in> set ps)"

text \<open>\<open>\w\<close>: alphanumeric or the underscore.\<close>

definition is_word :: "unicode \<Rightarrow> nat \<Rightarrow> bool" where
  "is_word U c = (u_isalnum U c \<or> c = 95)"

text \<open>\<open>\b\<close> holds between a word character and a non-word character or an end of the text.\<close>

fun at_boundary :: "unicode \<Rightarrow> nat option \<Rightarrow> ustr \<Rightarrow> bool" where
  "at_boundary U None [] = False"
| "at_boundary U None (c # cs) = is_word U c"
| "at_boundary U (Some p) [] = is_word U p"
| "at_boundary U (Some p) (c # cs) = (is_word U p \<noteq> is_word U c)"

text \<open>The greedy star: one more character first, and only then stopping here.\<close>

fun star_atom :: "unicode \<Rightarrow> bool \<Rightarrow> atom \<Rightarrow> mstate \<Rightarrow> mstate list" where
  "star_atom U ic a (p, [], g) = [(p, [], g)]"
| "star_atom U ic a (p, c # cs, g) =
     (if atom_ok U ic a c then star_atom U ic a (Some c, cs, g) @ [(p, c # cs, g)]
      else [(p, c # cs, g)])"

text \<open>
  \<open>rmatch U ic r st\<close> lists the states in which a match of \<open>r\<close> begun in \<open>st\<close> can end, in
  the order in which the backtracking matcher of \<open>re\<close> tries them: the left alternative
  before the right one, the longer repetition before the shorter one. The match that
  \<open>re\<close> reports is the first of the list. \<open>ic\<close> is the flag \<open>re.IGNORECASE\<close>.
\<close>

fun rmatch :: "unicode \<Rightarrow> bool \<Rightarrow> rx \<Rightarrow> mstate \<Rightarrow> mstate list" where
  "rmatch U ic Eps st = [st]"
| "rmatch U ic (Atom a) (p, [], g) = []"
| "rmatch U ic (Atom a) (p, c # cs, g) = (if atom_ok U ic a c then [(Some c, cs, g)] else [])"
| "rmatch U ic (Seq r1 r2) st = concat (map (rmatch U ic r2) (rmatch U ic r1 st))"
| "rmatch U ic (Alt r1 r2) st = rmatch U ic r1 st @ rmatch U ic r2 st"
| "rmatch U ic (Opt r) st = rmatch U ic r st @ [st]"
| "rmatch U ic (Star a) st = star_atom U ic a st"
| "rmatch U ic (Grp n r) (p, cs, g) =
     map (\<lambda>(p', cs', g'). (p', cs', (n, take (length cs - length cs') cs) # g'))
         (rmatch U ic r (p, cs, g))"
| "rmatch U ic WordB (p, cs, g) = (if at_boundary U p cs then [(p, cs, g)] else [])"

text \<open>
  \<open>re.search\<close>: the first match at the leftmost position that has one. The whole pattern
  is group 0, as in \<open>re\<close>. The result is the state after the match: its text is what
  follows \<open>match.end()\<close>.
\<close>

fun re_search :: "unicode \<Rightarrow> bool \<Rightarrow> rx \<Rightarrow> nat option \<Rightarrow> ustr \<Rightarrow> mstate option" where
  "re_search U ic r p [] =
     (case rmatch U ic (Grp 0 r) (p, [], []) of m # _ \<Rightarrow> Some m | [] \<Rightarrow> None)"
| "re_search U ic r p (c # cs) =
     (case rmatch U ic (Grp 0 r) (p, c # cs, []) of
        m # _ \<Rightarrow> Some m
      | [] \<Rightarrow> re_search U ic r (Some c) cs)"

text \<open>\<open>match.group(n)\<close>: \<open>None\<close> for a group that took no part in the match.\<close>

definition group :: "mstate \<Rightarrow> nat \<Rightarrow> ustr option" where
  "group m n = map_of (snd (snd m)) n"

text \<open>
  \<open>re.sub(r, repl, text)\<close> for a constant \<open>repl\<close>: the matches are replaced from left to
  right, and the scan resumes where a match ended. A match of the empty string is
  replaced and the scan moves one character on; no pattern that this module substitutes
  matches the empty string (\<open>patterns_consume\<close> below), so this branch is never taken.
\<close>

function re_sub :: "unicode \<Rightarrow> bool \<Rightarrow> rx \<Rightarrow> ustr \<Rightarrow> nat option \<Rightarrow> ustr \<Rightarrow> ustr" where
  "re_sub U ic r repl p [] = (case rmatch U ic r (p, [], []) of m # _ \<Rightarrow> repl | [] \<Rightarrow> [])"
| "re_sub U ic r repl p (c # cs) =
     (case rmatch U ic r (p, c # cs, []) of
        [] \<Rightarrow> c # re_sub U ic r repl (Some c) cs
      | (p', cs', _) # _ \<Rightarrow>
          if length cs' < Suc (length cs) then repl @ re_sub U ic r repl p' cs'
          else repl @ c # re_sub U ic r repl (Some c) cs)"
  by pat_completeness auto
termination
  by (relation "measure (\<lambda>(U, ic, r, repl, p, cs). length cs)") auto

subsection \<open>Writing patterns\<close>

fun lits :: "ustr \<Rightarrow> rx" where
  "lits [] = Eps"
| "lits [c] = Atom (Lit c)"
| "lits (c # cs) = Seq (Atom (Lit c)) (lits cs)"

definition word :: "string \<Rightarrow> rx" where
  "word s = lits (ascii s)"

fun seqs :: "rx list \<Rightarrow> rx" where
  "seqs [] = Eps"
| "seqs [r] = r"
| "seqs (r # rs) = Seq r (seqs rs)"

fun alts :: "rx list \<Rightarrow> rx" where
  "alts [] = Atom (OneOf [])"
| "alts [r] = r"
| "alts (r # rs) = Alt r (alts rs)"

text \<open>\<open>\d{1,2}\<close>, \<open>\d{2}\<close>, \<open>\s*\<close> and \<open>\s+\<close>.\<close>

definition digits12 :: rx where
  "digits12 = Seq (Atom Digit) (Opt (Atom Digit))"

definition digits2 :: rx where
  "digits2 = Seq (Atom Digit) (Atom Digit)"

definition spaces0 :: rx where
  "spaces0 = Star Space"

definition spaces1 :: rx where
  "spaces1 = Seq (Atom Space) (Star Space)"

section \<open>Date and time resolution\<close>

text \<open>What the code raises: \<open>ValueError\<close> from \<open>datetime.replace\<close>, \<open>OverflowError\<close> from
  date arithmetic, \<open>IndexError\<close> from indexing; \<open>ProviderError\<close> stands for whatever a
  provider raises.\<close>

datatype exn = ProviderError | ValueError | OverflowError | IndexError

text \<open>
  A naive \<open>datetime\<close>: the day as its proleptic Gregorian ordinal (\<open>date.toordinal()\<close>,
  day 1 is Monday 1 January of year 1, day 3652059 is 31 December 9999) and the time of
  day. \<open>datetime.now()\<close> reads the clock, so the functions take \<open>now\<close> as an argument.
\<close>

record datetime =
  ordinal :: int
  hour :: nat
  minute :: nat
  second :: nat
  microsecond :: nat

definition max_ordinal :: int where
  "max_ordinal = 3652059"

text \<open>\<open>d.weekday()\<close>: Monday is 0.\<close>

definition weekday :: "datetime \<Rightarrow> int" where
  "weekday d = (ordinal d + 6) mod 7"

text \<open>\<open>d + timedelta(days=n)\<close>, which raises \<open>OverflowError\<close> outside years 1 to 9999.\<close>

definition add_days :: "datetime \<Rightarrow> int \<Rightarrow> exn + datetime" where
  "add_days d n =
     (if 1 \<le> ordinal d + n \<and> ordinal d + n \<le> max_ordinal
      then Inr (d\<lparr>ordinal := ordinal d + n\<rparr>) else Inl OverflowError)"

text \<open>\<open>d.replace(hour=h, minute=m, second=0, microsecond=0)\<close>, which raises \<open>ValueError\<close>
  when the hour is not in 0..23 or the minute not in 0..59.\<close>

definition replace_time :: "datetime \<Rightarrow> nat \<Rightarrow> nat \<Rightarrow> exn + datetime" where
  "replace_time d h m =
     (if h \<le> 23 \<and> m \<le> 59
      then Inr (d\<lparr>hour := h, minute := m, second := 0, microsecond := 0\<rparr>)
      else Inl ValueError)"

text \<open>
  \<open>d.isoformat()\<close>: \<open>YYYY-MM-DDTHH:MM:SS\<close>, followed by \<open>.ffffff\<close> when the microsecond is
  not 0. The year, month and day of an ordinal are computed as \<open>_ord2ymd\<close> of module
  \<open>datetime\<close> computes them, from the number of days in 400, 100 and 4 years and in one
  year, and the two tables \<open>_DAYS_IN_MONTH\<close> and \<open>_DAYS_BEFORE_MONTH\<close>.
\<close>

definition days_in_month :: "int \<Rightarrow> int" where
  "days_in_month m = [31, 28, 31, 30, 31, 30, 31, 31, 30, 31, 30, 31] ! nat (m - 1)"

definition days_before_month :: "int \<Rightarrow> int" where
  "days_before_month m = [0, 31, 59, 90, 120, 151, 181, 212, 243, 273, 304, 334] ! nat (m - 1)"

definition ord2ymd :: "int \<Rightarrow> int \<times> int \<times> int" where
  "ord2ymd n =
     (let n0 = n - 1;
          n400 = n0 div 146097; r400 = n0 mod 146097;
          n100 = r400 div 36524; r100 = r400 mod 36524;
          n4 = r100 div 1461; r4 = r100 mod 1461;
          n1 = r4 div 365; r = r4 mod 365;
          year = n400 * 400 + 1 + n100 * 100 + n4 * 4 + n1
      in if n1 = 4 \<or> n100 = 4 then (year - 1, 12, 31)
         else
           (let leapyear = (n1 = 3 \<and> (n4 \<noteq> 24 \<or> n100 = 3));
                month = (r + 50) div 32;
                preceding = days_before_month month + (if month > 2 \<and> leapyear then 1 else 0)
            in if preceding > r
                 then (year, month - 1,
                       r - (preceding - (days_in_month (month - 1)
                                          + (if month - 1 = 2 \<and> leapyear then 1 else 0))) + 1)
               else (year, month, r - preceding + 1)))"

definition isoformat :: "datetime \<Rightarrow> ustr" where
  "isoformat d =
     (case ord2ymd (ordinal d) of
        (y, m, dd) \<Rightarrow>
          zero_pad 4 (nat y) @ [45] @ zero_pad 2 (nat m) @ [45] @ zero_pad 2 (nat dd) @ [84] @
          zero_pad 2 (hour d) @ [58] @ zero_pad 2 (minute d) @ [58] @ zero_pad 2 (second d) @
          (if microsecond d \<noteq> 0 then [46] @ zero_pad 6 (microsecond d) else []))"

subsection \<open>The time of day\<close>

text \<open>
  The four patterns of \<open>_parse_time_hint\<close>:
  \<^verbatim>\<open>(\d{1,2})\s*(?:pm|p\.m\.)\<close>, \<^verbatim>\<open>(\d{1,2})\s*(?:am|a\.m\.)\<close>, \<^verbatim>\<open>(\d{1,2}):(\d{2})\<close> and
  \<^verbatim>\<open>(P)?\s*(\d{1,2})D\<close>, where \<open>P\<close> is U+4E0A U+5348 (morning), U+4E0B U+5348 (afternoon)
  or U+665A U+4E0A (evening) and \<open>D\<close> is U+70B9 (o'clock).
\<close>

definition rx_pm :: rx where
  "rx_pm = seqs [Grp 1 digits12, spaces0, alts [word ''pm'', word ''p.m.'']]"

definition rx_am :: rx where
  "rx_am = seqs [Grp 1 digits12, spaces0, alts [word ''am'', word ''a.m.'']]"

definition rx_clock :: rx where
  "rx_clock = seqs [Grp 1 digits12, word '':'', Grp 2 digits2]"

definition rx_cn_clock :: rx where
  "rx_cn_clock =
     seqs [Opt (Grp 1 (alts [lits [19978, 21320], lits [19979, 21320], lits [26202, 19978]])),
           spaces0, Grp 2 digits12, lits [28857]]"

text \<open>\<open>int(match.group(n))\<close> for a group that every match of the pattern closes.\<close>

definition group_int :: "unicode \<Rightarrow> mstate \<Rightarrow> nat \<Rightarrow> nat" where
  "group_int U m n = py_int U (case group m n of None \<Rightarrow> [] | Some ds \<Rightarrow> ds)"

definition parse_time_hint :: "unicode \<Rightarrow> ustr \<Rightarrow> (nat \<times> nat) option" where
  "parse_time_hint U text =
     (let text_lower = u_lower U text;
          pm_match = re_search U False rx_pm None text_lower;
          am_match = re_search U False rx_am None text_lower;
          time_match = re_search U False rx_clock None text_lower
      in case pm_match of
           Some m \<Rightarrow>
             (let hour = group_int U m 1
              in Some (if hour < 12 then hour + 12 else hour, 0))
         | None \<Rightarrow>
        (case am_match of
           Some m \<Rightarrow>
             (let hour = group_int U m 1
              in Some (if hour = 12 then 0 else hour, 0))
         | None \<Rightarrow>
        (case time_match of
           Some m \<Rightarrow>
             (let hour = group_int U m 1;
                  minute = group_int U m 2;
                  after = take 10 (fst (snd m))
              in if contains after (ascii ''pm'')
                   then Some (if hour < 12 then hour + 12 else hour, minute)
                 else if contains after (ascii ''am'')
                   then Some (if hour = 12 then 0 else hour, minute)
                 else Some (hour, minute))
         | None \<Rightarrow>
        (case re_search U False rx_cn_clock None text of
           Some m \<Rightarrow>
             (let period = (case group m 1 of None \<Rightarrow> [] | Some t \<Rightarrow> t);
                  hour = group_int U m 2
              in if period \<in> set [[19979, 21320], [26202, 19978]] \<and> hour < 12
                   then Some (hour + 12, 0)
                 else if period = [] \<and> hour \<le> 12
                   then Some (if hour < 12 then hour + 12 else hour, 0)
                 else Some (hour, 0))
         | None \<Rightarrow> None))))"

subsection \<open>The relative date\<close>

text \<open>\<open>weekday_map_en\<close> in the order of the dictionary, which is the order of the loop.\<close>

definition weekday_map_en :: "(ustr \<times> int) list" where
  "weekday_map_en =
     [(ascii ''monday'', 0), (ascii ''tuesday'', 1), (ascii ''wednesday'', 2),
      (ascii ''thursday'', 3), (ascii ''friday'', 4), (ascii ''saturday'', 5),
      (ascii ''sunday'', 6),
      (ascii ''mon'', 0), (ascii ''tue'', 1), (ascii ''wed'', 2), (ascii ''thu'', 3),
      (ascii ''fri'', 4), (ascii ''sat'', 5), (ascii ''sun'', 6)]"

text \<open>\<open>weekday_map\<close>: U+4E00, U+4E8C, U+4E09, U+56DB, U+4E94, U+516D (one to six) for Monday
  to Saturday, U+65E5 and U+5929 for Sunday.\<close>

definition weekday_map :: "(nat \<times> int) list" where
  "weekday_map =
     [(19968, 0), (20108, 1), (19977, 2), (22235, 3), (20116, 4), (20845, 5),
      (26085, 6), (22825, 6)]"

text \<open>\<^verbatim>\<open>(W)[1234567]\<close> of the Chinese branch: \<open>W\<close> is U+672C U+5468 (this week) or
  U+4E0B U+5468 (next week), followed by one of the eight weekday characters.\<close>

definition rx_cn_week :: rx where
  "rx_cn_week =
     Seq (Grp 1 (alts [lits [26412, 21608], lits [19979, 21608]]))
         (Atom (OneOf [19968, 20108, 19977, 22235, 20116, 20845, 26085, 22825]))"

text \<open>The loop over \<open>weekday_map_en\<close>: the first entry whose name occurs in the text gives
  the date, the offset 0 being replaced by 7.\<close>

definition next_weekday_base :: "datetime \<Rightarrow> ustr \<Rightarrow> exn + datetime option" where
  "next_weekday_base now text_lower =
     (case find (\<lambda>(day_name, day_num). contains text_lower day_name) weekday_map_en of
        None \<Rightarrow> Inr None
      | Some (day_name, day_num) \<Rightarrow>
          (let current_weekday = weekday now;
               delta0 = (day_num - current_weekday + 7) mod 7;
               delta = (if delta0 = 0 then 7 else delta0)
           in case add_days now delta of Inl e \<Rightarrow> Inl e | Inr d \<Rightarrow> Inr (Some d)))"

text \<open>The chain that follows the loop when it has found no weekday name.\<close>

definition next_week_base :: "datetime \<Rightarrow> ustr \<Rightarrow> exn + datetime option" where
  "next_week_base now text_lower =
     (let has = contains text_lower;
          plus = (\<lambda>n. case add_days now (n - weekday now) of
                         Inl e \<Rightarrow> Inl e | Inr d \<Rightarrow> Inr (Some d))
      in if has (ascii ''monday'') \<or> has (ascii ''mon'') then plus 7
         else if has (ascii ''tuesday'') \<or> has (ascii ''tue'') then plus 8
         else if has (ascii ''wednesday'') \<or> has (ascii ''wed'') then plus 9
         else if has (ascii ''thursday'') \<or> has (ascii ''thu'') then plus 10
         else if has (ascii ''friday'') \<or> has (ascii ''fri'') then plus 11
         else if has (ascii ''saturday'') \<or> has (ascii ''sat'') then plus 12
         else if has (ascii ''sunday'') \<or> has (ascii ''sun'') then plus 13
         else Inr None)"

text \<open>The Chinese weekday branch. \<open>match.group(0)[2]\<close> is the weekday character.\<close>

definition cn_week_base :: "unicode \<Rightarrow> datetime \<Rightarrow> ustr \<Rightarrow> exn + datetime option" where
  "cn_week_base U now text =
     (case re_search U False rx_cn_week None text of
        None \<Rightarrow> Inr None
      | Some m \<Rightarrow>
          (case drop 2 (case group m 0 of None \<Rightarrow> [] | Some t \<Rightarrow> t) of
             [] \<Rightarrow> Inl IndexError
           | target_char # _ \<Rightarrow>
               (case map_of weekday_map target_char of
                  None \<Rightarrow> Inr None
                | Some target_weekday \<Rightarrow>
                    (let current_weekday = weekday now;
                         delta =
                           (if group m 1 = Some [26412, 21608]
                            then (if target_weekday - current_weekday < 0
                                  then target_weekday - current_weekday + 7
                                  else target_weekday - current_weekday)
                            else (target_weekday - current_weekday) + 7)
                     in case add_days now delta of
                          Inl e \<Rightarrow> Inl e | Inr d \<Rightarrow> Inr (Some d)))))"

text \<open>
  The \<open>if\<close>/\<open>elif\<close> chain of \<open>_parse_relative_date\<close> that computes \<open>base\<close>. The Chinese cues
  are U+4ECA U+5929 (today), U+660E U+5929 (tomorrow) and U+540E U+5929 (the day after
  tomorrow); they are looked for in the text as given, the English ones in its lowercase.
\<close>

definition relative_base :: "unicode \<Rightarrow> datetime \<Rightarrow> ustr \<Rightarrow> exn + datetime option" where
  "relative_base U now text =
     (let text_lower = u_lower U text
      in if contains text [20170, 22825] \<or> contains text_lower (ascii ''today'')
           then Inr (Some now)
         else if contains text [26126, 22825] \<or> contains text_lower (ascii ''tomorrow'')
           then (case add_days now 1 of Inl e \<Rightarrow> Inl e | Inr d \<Rightarrow> Inr (Some d))
         else if contains text [21518, 22825]
                 \<or> contains text_lower (ascii ''day after tomorrow'')
           then (case add_days now 2 of Inl e \<Rightarrow> Inl e | Inr d \<Rightarrow> Inr (Some d))
         else if contains text_lower (ascii ''next'')
           then (case next_weekday_base now text_lower of
                   Inl e \<Rightarrow> Inl e
                 | Inr (Some d) \<Rightarrow> Inr (Some d)
                 | Inr None \<Rightarrow> next_week_base now text_lower)
         else cn_week_base U now text)"

definition parse_relative_date :: "unicode \<Rightarrow> datetime \<Rightarrow> ustr \<Rightarrow> exn + datetime option" where
  "parse_relative_date U now text =
     (case relative_base U now text of
        Inl e \<Rightarrow> Inl e
      | Inr None \<Rightarrow> Inr None
      | Inr (Some base) \<Rightarrow>
          (case parse_time_hint U text of
             Some (h, m) \<Rightarrow>
               (case replace_time base h m of Inl e \<Rightarrow> Inl e | Inr d \<Rightarrow> Inr (Some d))
           | None \<Rightarrow>
               (case replace_time base 23 59 of Inl e \<Rightarrow> Inl e | Inr d \<Rightarrow> Inr (Some d))))"

section \<open>Title cleanup\<close>

text \<open>
  The thirteen \<open>cleanup_patterns\<close> of \<open>_clean_title\<close>, in the order of the list. Capturing
  groups are numbered as \<open>re\<close> numbers them. \<open>weekday_chars\<close> is the set
  \<open>[U+4E00 U+4E8C U+4E09 U+56DB U+4E94 U+516D U+65E5 U+5929]\<close>.
\<close>

definition weekday_chars :: atom where
  "weekday_chars = OneOf [19968, 20108, 19977, 22235, 20116, 20845, 26085, 22825]"

text \<open>Dates: U+4ECA U+5929 | U+660E U+5929 | U+540E U+5929 | U+672C U+5468 [weekday] |
  U+4E0B U+5468 [weekday].\<close>

definition pat_cn_date :: rx where
  "pat_cn_date =
     alts [lits [20170, 22825], lits [26126, 22825], lits [21518, 22825],
           Seq (lits [26412, 21608]) (Atom weekday_chars),
           Seq (lits [19979, 21608]) (Atom weekday_chars)]"

text \<open>\<^verbatim>\<open>\b(today|tomorrow|day after tomorrow|next (monday|tuesday|wednesday|thursday|friday|saturday|sunday|week))\b\<close>\<close>

definition pat_en_date :: rx where
  "pat_en_date =
     seqs [WordB,
           Grp 1 (alts [word ''today'', word ''tomorrow'', word ''day after tomorrow'',
                        Seq (word ''next '')
                            (Grp 2 (alts [word ''monday'', word ''tuesday'', word ''wednesday'',
                                          word ''thursday'', word ''friday'', word ''saturday'',
                                          word ''sunday'', word ''week'']))]),
           WordB]"

text \<open>\<^verbatim>\<open>(P)?\s*\d{1,2}D\<close> with \<open>P\<close> and \<open>D\<close> as in \<open>rx_cn_clock\<close>.\<close>

definition pat_cn_time :: rx where
  "pat_cn_time =
     seqs [Opt (Grp 1 (alts [lits [19978, 21320], lits [19979, 21320], lits [26202, 19978]])),
           spaces0, digits12, lits [28857]]"

text \<open>\<^verbatim>\<open>\b\d{1,2}\s*(?:am|pm|a\.m\.|p\.m\.)\b\<close>\<close>

definition pat_ampm :: rx where
  "pat_ampm =
     seqs [WordB, digits12, spaces0,
           alts [word ''am'', word ''pm'', word ''a.m.'', word ''p.m.''], WordB]"

text \<open>\<^verbatim>\<open>\b\d{1,2}:\d{2}\s*(?:am|pm)?\b\<close>\<close>

definition pat_clock :: rx where
  "pat_clock =
     seqs [WordB, digits12, word '':'', digits2, spaces0,
           Opt (alts [word ''am'', word ''pm'']), WordB]"

text \<open>\<^verbatim>\<open>\bat\s+\d{1,2}\s*(?:am|pm)?\b\<close>\<close>

definition pat_at_hour :: rx where
  "pat_at_hour =
     seqs [WordB, word ''at'', spaces1, digits12, spaces0,
           Opt (alts [word ''am'', word ''pm'']), WordB]"

text \<open>Priority markers: U+4F18 U+5148 U+7EA7 U+9AD8 | U+9AD8 U+4F18 U+5148 U+7EA7 |
  U+5F88 U+91CD U+8981 | U+7D27 U+6025 | U+5C3D U+5FEB | U+4F18 U+5148 U+7EA7 U+4F4E |
  U+4F4E U+4F18 U+5148 U+7EA7 | U+4E0D U+6025 | U+6709 U+7A7A U+518D.\<close>

definition pat_cn_priority :: rx where
  "pat_cn_priority =
     alts [lits [20248, 20808, 32423, 39640], lits [39640, 20248, 20808, 32423],
           lits [24456, 37325, 35201], lits [32039, 24613], lits [23613, 24555],
           lits [20248, 20808, 32423, 20302], lits [20302, 20248, 20808, 32423],
           lits [19981, 24613], lits [26377, 31354, 20877]]"

text \<open>\<^verbatim>\<open>\b(urgent|important|critical|asap|high priority|low priority|priority (high|low))\b\<close>\<close>

definition pat_en_priority :: rx where
  "pat_en_priority =
     seqs [WordB,
           Grp 1 (alts [word ''urgent'', word ''important'', word ''critical'', word ''asap'',
                        word ''high priority'', word ''low priority'',
                        Seq (word ''priority '') (Grp 2 (alts [word ''high'', word ''low'']))]),
           WordB]"

text \<open>\<^verbatim>\<open>it\'?s\<close>: the apostrophe is code point 39.\<close>

definition its :: rx where
  "its = seqs [word ''it'', Opt (Atom (Lit 39)), word ''s'']"

text \<open>\<^verbatim>\<open>\b(it\'?s\s+)?(very\s+)?(important|urgent)\b\<close>\<close>

definition pat_very_important :: rx where
  "pat_very_important =
     seqs [WordB, Opt (Grp 1 (Seq its spaces1)), Opt (Grp 2 (Seq (word ''very'') spaces1)),
           Grp 3 (alts [word ''important'', word ''urgent'']), WordB]"

text \<open>\<^verbatim>\<open>\b(remind me to|remember to|don\'?t forget to|make sure to)\b\<close>\<close>

definition pat_remind :: rx where
  "pat_remind =
     seqs [WordB,
           Grp 1 (alts [word ''remind me to'', word ''remember to'',
                        seqs [word ''don'', Opt (Atom (Lit 39)), word ''t forget to''],
                        word ''make sure to'']),
           WordB]"

text \<open>\<^verbatim>\<open>(it\'?s|the|a|an|this|that)\<close>, the second group of the two patterns below.\<close>

definition determiners :: rx where
  "determiners = alts [its, word ''the'', word ''a'', word ''an'', word ''this'', word ''that'']"

text \<open>\<^verbatim>\<open>\b(to|at|in|on|for|with|by)\s+(it\'?s|the|a|an|this|that)\b\<close>\<close>

definition pat_prep_det :: rx where
  "pat_prep_det =
     seqs [WordB,
           Grp 1 (alts [word ''to'', word ''at'', word ''in'', word ''on'', word ''for'',
                        word ''with'', word ''by'']),
           spaces1, Grp 2 determiners, WordB]"

text \<open>\<^verbatim>\<open>\b(it\'?s|that\'?s|this is)\s+(important|urgent|critical)\b\<close>\<close>

definition pat_its_important :: rx where
  "pat_its_important =
     seqs [WordB,
           Grp 1 (alts [its, seqs [word ''that'', Opt (Atom (Lit 39)), word ''s''],
                        word ''this is'']),
           spaces1,
           Grp 2 (alts [word ''important'', word ''urgent'', word ''critical'']), WordB]"

text \<open>Punctuation: the set \<open>[U+FF0C , U+3002 . ! U+FF01]\<close>.\<close>

definition pat_punct :: rx where
  "pat_punct = Atom (OneOf [65292, 44, 12290, 46, 33, 65281])"

definition cleanup_patterns :: "rx list" where
  "cleanup_patterns =
     [pat_cn_date, pat_en_date, pat_cn_time, pat_ampm, pat_clock, pat_at_hour,
      pat_cn_priority, pat_en_priority, pat_very_important, pat_remind, pat_prep_det,
      pat_its_important, pat_punct]"

text \<open>\<^verbatim>\<open>\b(at|in|on|for|with|by|to)\s+(it\'?s|the|a|an|this|that)\b\<close>, applied after the
  white space has been collapsed.\<close>

definition pat_connective :: rx where
  "pat_connective =
     seqs [WordB,
           Grp 1 (alts [word ''at'', word ''in'', word ''on'', word ''for'', word ''with'',
                        word ''by'', word ''to'']),
           spaces1, Grp 2 determiners, WordB]"

text \<open>The loop \<open>for pattern in cleanup_patterns: title = re.sub(pattern, '', title,
  flags=re.IGNORECASE)\<close>.\<close>

definition erase_all :: "unicode \<Rightarrow> rx list \<Rightarrow> ustr \<Rightarrow> ustr" where
  "erase_all U patterns text = foldl (\<lambda>title pat. re_sub U True pat [] None title) text patterns"

text \<open>The title before the final \<open>title or text\<close>: patterns erased, white space
  collapsed, connectives erased, stripped.\<close>

definition stripped_title :: "unicode \<Rightarrow> ustr \<Rightarrow> ustr" where
  "stripped_title U text =
     py_strip U
       (re_sub U True pat_connective [] None
          (re_sub U False spaces1 [32] None (erase_all U cleanup_patterns text)))"

definition clean_title :: "unicode \<Rightarrow> ustr \<Rightarrow> ustr" where
  "clean_title U text =
     (let title = stripped_title U text in if title \<noteq> [] then title else text)"

section \<open>Tag inference\<close>

text \<open>
  The keyword lists of \<open>_get_fallback_tags\<close>, in the order of the source. The Chinese
  entries of \<open>work_keywords\<close> are U+5DE5 U+4F5C (work), U+9879 U+76EE (project),
  U+62A5 U+544A (report), U+4F1A U+8BAE (meeting), U+4EFB U+52A1 (task), U+9879 U+76EE again,
  U+4EE3 U+7801 (code), U+5BA1 U+67E5 (review), U+5F00 U+53D1 (develop) and
  U+8BBE U+8BA1 (design).
\<close>

definition work_keywords :: "ustr list" where
  "work_keywords =
    [[24037, 20316], [39033, 30446], [25253, 21578], [20250, 35758], [20219, 21153],
     [39033, 30446], [20195, 30721], [23457, 26597], [24320, 21457], [35774, 35745],
     ascii ''work'', ascii ''project'', ascii ''report'', ascii ''meeting'', ascii ''task'',
     ascii ''code'', ascii ''review'', ascii ''develop'', ascii ''development'',
     ascii ''design'', ascii ''implement'', ascii ''implementation'', ascii ''bug'',
     ascii ''fix'', ascii ''feature'', ascii ''deploy'', ascii ''deployment'',
     ascii ''test'', ascii ''testing'', ascii ''document'', ascii ''documentation'',
     ascii ''plan'', ascii ''planning'', ascii ''analysis'']"

text \<open>The refinements within the work category; U+68C0 U+67E5 is "check".\<close>

definition meeting_keywords :: "ustr list" where
  "meeting_keywords = [ascii ''meeting'', [20250, 35758], ascii ''conference'', ascii ''call'']"

definition code_keywords :: "ustr list" where
  "code_keywords =
     [ascii ''code'', [20195, 30721], ascii ''programming'', ascii ''program'', ascii ''coding'']"

definition review_keywords :: "ustr list" where
  "review_keywords = [ascii ''review'', [23457, 26597], ascii ''check'', [26816, 26597]]"

definition project_keywords :: "ustr list" where
  "project_keywords = [ascii ''project'', [39033, 30446]]"

definition report_keywords :: "ustr list" where
  "report_keywords = [ascii ''report'', [25253, 21578]]"

text \<open>U+5B66 U+4E60 (study), U+8BFE U+7A0B (course), U+4F5C U+4E1A (homework),
  U+8003 U+8BD5 (exam), U+57F9 U+8BAD (training), U+6559 U+7A0B (tutorial).\<close>

definition study_keywords :: "ustr list" where
  "study_keywords =
    [[23398, 20064], [35838, 31243], [20316, 19994], [32771, 35797], [22521, 35757],
     [25945, 31243],
     ascii ''learn'', ascii ''study'', ascii ''course'', ascii ''homework'', ascii ''exam'',
     ascii ''test'', ascii ''training'', ascii ''tutorial'']"

text \<open>U+8D2D U+7269 (shopping), U+4E70 (buy), U+8D85 U+5E02 (supermarket),
  U+5546 U+5E97 (shop), U+91C7 U+8D2D (purchase).\<close>

definition shopping_keywords :: "ustr list" where
  "shopping_keywords =
    [[36141, 29289], [20080], [36229, 24066], [21830, 24215], [37319, 36141],
     ascii ''shopping'', ascii ''buy'', ascii ''purchase'', ascii ''shop'', ascii ''grocery'',
     ascii ''store'']"

text \<open>U+5065 U+5EB7 (health), U+8FD0 U+52A8 (sport), U+953B U+70BC (exercise),
  U+533B U+9662 (hospital), U+533B U+751F (doctor), U+5065 U+8EAB (fitness).\<close>

definition health_keywords :: "ustr list" where
  "health_keywords =
    [[20581, 24247], [36816, 21160], [38203, 28860], [21307, 38498], [21307, 29983],
     [20581, 36523],
     ascii ''health'', ascii ''exercise'', ascii ''workout'', ascii ''hospital'',
     ascii ''doctor'', ascii ''fitness'', ascii ''gym'']"

text \<open>U+4E2A U+4EBA (personal), U+751F U+6D3B (life), U+5BB6 U+5EAD (family),
  U+670B U+53CB (friend), U+793E U+4EA4 (social).\<close>

definition personal_keywords :: "ustr list" where
  "personal_keywords =
    [[20010, 20154], [29983, 27963], [23478, 24237], [26379, 21451], [31038, 20132],
     ascii ''personal'', ascii ''life'', ascii ''family'', ascii ''friend'', ascii ''social'',
     ascii ''home'']"

text \<open>U+8D22 U+52A1 (finance), U+8D26 U+5355 (bill), U+652F U+4ED8 (payment),
  U+94F6 U+884C (bank), U+6295 U+8D44 (investment).\<close>

definition finance_keywords :: "ustr list" where
  "finance_keywords =
    [[36130, 21153], [36134, 21333], [25903, 20184], [38134, 34892], [25237, 36164],
     ascii ''finance'', ascii ''bill'', ascii ''payment'', ascii ''bank'', ascii ''investment'',
     ascii ''money'']"

text \<open>U+65C5 U+884C and U+65C5 U+6E38 (travel), U+51FA U+5DEE (business trip),
  U+822A U+73ED (flight), U+9152 U+5E97 (hotel).\<close>

definition travel_keywords :: "ustr list" where
  "travel_keywords =
    [[26053, 34892], [26053, 28216], [20986, 24046], [33322, 29677], [37202, 24215],
     ascii ''travel'', ascii ''trip'', ascii ''flight'', ascii ''hotel'', ascii ''vacation'',
     ascii ''journey'']"

text \<open>The label of the work category: the most specific refinement only.\<close>

definition work_label :: "ustr \<Rightarrow> ustr" where
  "work_label content =
     (if any_in meeting_keywords content then ascii ''Meeting''
      else if any_in code_keywords content then ascii ''Code''
      else if any_in review_keywords content then ascii ''Review''
      else if any_in project_keywords content then ascii ''Project''
      else if any_in report_keywords content then ascii ''Report''
      else ascii ''Work'')"

text \<open>The \<open>simple_tags.append\<close> calls, category by category.\<close>

definition category_tags :: "ustr \<Rightarrow> ustr list" where
  "category_tags content =
     (if any_in work_keywords content then [work_label content] else []) @
     (if any_in study_keywords content then [ascii ''Study''] else []) @
     (if any_in shopping_keywords content then [ascii ''Shopping''] else []) @
     (if any_in health_keywords content then [ascii ''Health''] else []) @
     (if any_in personal_keywords content then [ascii ''Personal''] else []) @
     (if any_in finance_keywords content then [ascii ''Finance''] else []) @
     (if any_in travel_keywords content then [ascii ''Travel''] else [])"

definition get_fallback_tags :: "unicode \<Rightarrow> ustr \<Rightarrow> ustr option \<Rightarrow> ustr list" where
  "get_fallback_tags U title description =
     (let content = content_of U title description;
          tags = category_tags content;
          simple_tags =
            (if tags = [] then
               (if contains content (ascii ''meeting'') \<or> contains content [20250, 35758]
                  then [ascii ''Meeting'']
                else if contains content (ascii ''code'') \<or> contains content [20195, 30721]
                  then [ascii ''Code'']
                else if contains content (ascii ''review'') \<or> contains content [23457, 26597]
                  then [ascii ''Review'']
                else [ascii ''Work''])
             else tags)
      in if simple_tags \<noteq> [] then take 3 simple_tags else [ascii ''Other''])"

section \<open>The orchestrator\<close>

text \<open>
  A value of the dictionary that a provider answers with (decoded JSON) or that
  \<open>parse_natural_language\<close> returns: \<open>None\<close>, a Boolean, an integer, a string, a list of
  strings (the tags), or the ISO 8601 string of a \<open>datetime\<close> (\<open>due_date.isoformat()\<close>),
  which is kept as the \<open>datetime\<close> that it renders. JSON can also hold a float, a nested
  list or an object; these are not modelled. A dictionary is a list of pairs in
  insertion order, with one pair for each key.
\<close>

datatype pyval = VNone | VBool bool | VInt int | VStr ustr | VList "ustr list" | VIso datetime

type_synonym dict = "(ustr \<times> pyval) list"

text \<open>\<open>d[k] = v\<close>: an existing key keeps its position, a new key goes last.\<close>

fun dict_set :: "dict \<Rightarrow> ustr \<Rightarrow> pyval \<Rightarrow> dict" where
  "dict_set [] k v = [(k, v)]"
| "dict_set ((k', v') # d) k v = (if k' = k then (k, v) # d else (k', v') # dict_set d k v)"

text \<open>\<open>d.get(k)\<close>: \<open>None\<close> for a missing key.\<close>

definition dict_get :: "dict \<Rightarrow> ustr \<Rightarrow> pyval" where
  "dict_get d k = (case map_of d k of None \<Rightarrow> VNone | Some v \<Rightarrow> v)"

text \<open>The truth value of a value (\<open>not value\<close> is its negation): \<open>None\<close>, \<open>False\<close>, 0, the
  empty string and the empty list are false.\<close>

fun truthy :: "pyval \<Rightarrow> bool" where
  "truthy VNone = False"
| "truthy (VBool b) = b"
| "truthy (VInt i) = (i \<noteq> 0)"
| "truthy (VStr s) = (s \<noteq> [])"
| "truthy (VList xs) = (xs \<noteq> [])"
| "truthy (VIso d) = True"

text \<open>\<open>str(value)\<close>: a string is itself, and a list is the \<open>repr\<close> of its elements between
  brackets, separated by a comma and a space.\<close>

fun py_str :: "unicode \<Rightarrow> pyval \<Rightarrow> ustr" where
  "py_str U VNone = ascii ''None''"
| "py_str U (VBool b) = (if b then ascii ''True'' else ascii ''False'')"
| "py_str U (VInt i) = (if i < 0 then [45] @ decimal (nat (- i)) else decimal (nat i))"
| "py_str U (VStr s) = s"
| "py_str U (VList xs) = [91] @ py_join [44, 32] (map (py_repr U) xs) @ [93]"
| "py_str U (VIso d) = isoformat d"

text \<open>
  \<open>_normalize_priority\<close>. The annotation of its argument is \<open>Optional[str]\<close>, but the value
  is what the provider's dictionary holds, and the function applies \<open>str\<close> to it. The exact
  spellings are \<open>high\<close>, \<open>h\<close>, U+9AD8,
  U+9AD8 U+4F18 U+5148 U+7EA7, U+4F18 U+5148 U+7EA7 U+9AD8; \<open>medium\<close>, \<open>med\<close>, U+4E2D and the
  same two compounds with U+4E2D; \<open>low\<close>, \<open>l\<close>, U+4F4E and the two compounds with U+4F4E.
  Then a string that holds U+9AD8 is high, one that holds U+4F4E is low, one that holds
  U+4E2D is medium, and any other string is returned as it is.
\<close>

definition normalize_priority :: "unicode \<Rightarrow> pyval \<Rightarrow> ustr option" where
  "normalize_priority U v =
     (if \<not> truthy v then None
      else
        (let normalized = u_lower U (py_strip U (py_str U v))
         in if normalized \<in> set [ascii ''high'', ascii ''h'', [39640],
                                  [39640, 20248, 20808, 32423], [20248, 20808, 32423, 39640]]
              then Some (ascii ''high'')
            else if normalized \<in> set [ascii ''medium'', ascii ''med'', [20013],
                                  [20013, 20248, 20808, 32423], [20248, 20808, 32423, 20013]]
              then Some (ascii ''medium'')
            else if normalized \<in> set [ascii ''low'', ascii ''l'', [20302],
                                  [20302, 20248, 20808, 32423], [20248, 20808, 32423, 20302]]
              then Some (ascii ''low'')
            else if contains normalized [39640] then Some (ascii ''high'')
            else if contains normalized [20302] then Some (ascii ''low'')
            else if contains normalized [20013] then Some (ascii ''medium'')
            else Some normalized))"

text \<open>
  A provider (\<open>class AIProvider\<close>): its four operations, each of which returns a result or
  raises. What a remote model answers is not determined by the code, so a provider is
  any four functions.
\<close>

record provider =
  p_parse :: "ustr \<Rightarrow> exn + dict"
  p_suggest_tags :: "ustr \<Rightarrow> ustr option \<Rightarrow> exn + ustr list"
  p_breakdown :: "ustr \<Rightarrow> exn + ustr list"
  p_recommend :: "ustr \<Rightarrow> ustr option \<Rightarrow> exn + priority \<times> ustr"

text \<open>
  The log lines of \<open>AIService\<close>, which record what was consulted: provider \<open>i\<close> of the list
  succeeded (\<open>logger.info\<close> in the loop), provider \<open>i\<close> raised (\<open>logger.warning\<close> in the
  handler), every provider failed (the warning after the loop), the fallback is used (the
  \<open>logger.info\<close> that opens each fallback branch).
\<close>

datatype event = Succeeded nat | Failed nat exn | AllFailed | FallbackUsed

text \<open>\<open>_try_providers\<close>: \<open>call\<close> is \<open>getattr(provider, func_name)\<close> applied to the arguments,
  \<open>i\<close> the index of the first provider of the list.\<close>

fun try_from :: "nat \<Rightarrow> (provider \<Rightarrow> exn + 'r) \<Rightarrow> provider list \<Rightarrow> 'r option \<times> event list" where
  "try_from i call [] = (None, [AllFailed])"
| "try_from i call (p # ps) =
     (case call p of
        Inr result \<Rightarrow> (Some result, [Succeeded i])
      | Inl e \<Rightarrow> (let (result, log) = try_from (Suc i) call ps in (result, Failed i e # log)))"

definition try_providers :: "(provider \<Rightarrow> exn + 'r) \<Rightarrow> provider list \<Rightarrow> 'r option \<times> event list" where
  "try_providers call providers = try_from 0 call providers"

text \<open>The fallback branch of \<open>parse_natural_language\<close>.\<close>

definition parse_fallback :: "unicode \<Rightarrow> datetime \<Rightarrow> ustr \<Rightarrow> exn + dict" where
  "parse_fallback U now text =
     (let priority = fst (get_fallback_priority U text None)
      in case parse_relative_date U now text of
           Inl e \<Rightarrow> Inl e
         | Inr due_date \<Rightarrow>
             (let title = clean_title U text
              in Inr [(ascii ''title'', VStr title),
                      (ascii ''description'', VNone),
                      (ascii ''priority'', VStr (priority_value priority)),
                      (ascii ''due_date'', (case due_date of None \<Rightarrow> VNone | Some d \<Rightarrow> VIso d)),
                      (ascii ''tags'', VList [])]))"

text \<open>The branch of \<open>parse_natural_language\<close> for a provider's result: the keyword scan
  of the text overrides the priority, which is then normalised.\<close>

definition override_priority :: "unicode \<Rightarrow> ustr \<Rightarrow> dict \<Rightarrow> dict" where
  "override_priority U text result =
     (let forced_priority = fst (get_fallback_priority U text None);
          result1 = (if forced_priority \<noteq> MEDIUM
                     then dict_set result (ascii ''priority'') (VStr (priority_value forced_priority))
                     else result)
      in dict_set result1 (ascii ''priority'')
           (VStr (case normalize_priority U (dict_get result1 (ascii ''priority'')) of
                    None \<Rightarrow> ascii ''medium''
                  | Some s \<Rightarrow> if s \<noteq> [] then s else ascii ''medium'')))"

text \<open>The text of a parse request (\<open>class NaturalLanguageInput\<close> of \<open>schemas.py\<close>, the body
  of both routes that call \<open>parse_natural_language\<close>): \<open>text: str = Field(..., min_length=1)\<close>.\<close>

definition natural_language_input :: "ustr \<Rightarrow> bool" where
  "natural_language_input text \<longleftrightarrow> 1 \<le> length text"

text \<open>The four public operations. Each returns its result, or what it raises, and the
  log. \<open>if result:\<close> is false for \<open>None\<close> and for an empty dictionary or list.\<close>

definition parse_natural_language ::
  "unicode \<Rightarrow> provider list \<Rightarrow> datetime \<Rightarrow> ustr \<Rightarrow> (exn + dict) \<times> event list" where
  "parse_natural_language U providers now text =
     (let (result, log) = try_providers (\<lambda>p. p_parse p text) providers
      in case result of
           Some (kv # d) \<Rightarrow> (Inr (override_priority U text (kv # d)), log)
         | _ \<Rightarrow> (parse_fallback U now text, log @ [FallbackUsed]))"

definition suggest_tags ::
  "unicode \<Rightarrow> provider list \<Rightarrow> ustr \<Rightarrow> ustr option \<Rightarrow> ustr list \<times> event list" where
  "suggest_tags U providers title description =
     (let (result, log) = try_providers (\<lambda>p. p_suggest_tags p title description) providers
      in case result of
           Some (t # ts) \<Rightarrow> (t # ts, log)
         | _ \<Rightarrow> (get_fallback_tags U title description, log @ [FallbackUsed]))"

definition breakdown_task :: "provider list \<Rightarrow> ustr \<Rightarrow> ustr list \<times> event list" where
  "breakdown_task providers task_description =
     (let (result, log) = try_providers (\<lambda>p. p_breakdown p task_description) providers
      in case result of
           Some (t # ts) \<Rightarrow> (t # ts, log)
         | _ \<Rightarrow> ([[20934, 22791, 32] @ task_description,
                  [25191, 34892, 32] @ task_description,
                  [23436, 25104, 32] @ task_description], log @ [FallbackUsed]))"

definition recommend_priority ::
  "unicode \<Rightarrow> provider list \<Rightarrow> ustr \<Rightarrow> ustr option \<Rightarrow> (priority \<times> ustr) \<times> event list" where
  "recommend_priority U providers title description =
     (let (result, log) = try_providers (\<lambda>p. p_recommend p title description) providers
      in case result of
           Some r \<Rightarrow> (r, log)
         | None \<Rightarrow> (get_fallback_priority U title description, log @ [FallbackUsed]))"

section \<open>Auxiliary notions for the statements\<close>

text \<open>The least number of characters that a match of a pattern consumes.\<close>

fun min_width :: "rx \<Rightarrow> nat" where
  "min_width Eps = 0"
| "min_width (Atom a) = 1"
| "min_width (Seq r1 r2) = min_width r1 + min_width r2"
| "min_width (Alt r1 r2) = min (min_width r1) (min_width r2)"
| "min_width (Opt r) = 0"
| "min_width (Star a) = 0"
| "min_width (Grp n r) = min_width r"
| "min_width WordB = 0"

text \<open>The providers that a log says were invoked, in order.\<close>

fun consulted :: "event list \<Rightarrow> nat list" where
  "consulted [] = []"
| "consulted (Succeeded i # log) = i # consulted log"
| "consulted (Failed i e # log) = i # consulted log"
| "consulted (ev # log) = consulted log"

text \<open>A text in which no cleanup pattern, and not the connective pattern either, has a
  match.\<close>

definition marker_free :: "unicode \<Rightarrow> ustr \<Rightarrow> bool" where
  "marker_free U s =
     list_all (\<lambda>pat. re_search U True pat None s = None) (cleanup_patterns @ [pat_connective])"

text \<open>
  The claim about priority inference speaks of a text that contains a trigger. The text
  of a task is its title and its description, and a trigger is looked for without regard
  to case: \<open>occurs_in_task\<close> says that the keyword occurs in the lowercase title, or in the
  lowercase description, or across the two, with the space of the keyword where the code
  joins them (\<open>straddles\<close>: the keyword is \<open>x\<close>, a space, \<open>y\<close>, the title ends with \<open>x\<close> and
  the description begins with \<open>y\<close>, as \<open>high\<close> and \<open>priority\<close> do). These notions are written
  from the claim, not from \<open>_get_fallback_priority\<close>.
\<close>

definition straddles :: "ustr \<Rightarrow> ustr \<Rightarrow> ustr \<Rightarrow> bool" where
  "straddles a b kw \<longleftrightarrow>
     list_ex (\<lambda>i. kw ! i = 32 \<and> endswith a (take i kw) \<and> startswith b (drop (Suc i) kw))
       [0..<length kw]"

definition occurs_in_task :: "unicode \<Rightarrow> ustr \<Rightarrow> ustr \<Rightarrow> ustr option \<Rightarrow> bool" where
  "occurs_in_task U kw title description \<longleftrightarrow>
     (let t = u_lower U title;
          d = u_lower U (case description of None \<Rightarrow> [] | Some d \<Rightarrow> d)
      in contains t kw \<or> contains d kw \<or> straddles t d kw)"

definition has_trigger :: "unicode \<Rightarrow> ustr list \<Rightarrow> ustr \<Rightarrow> ustr option \<Rightarrow> bool" where
  "has_trigger U triggers title description \<longleftrightarrow>
     list_ex (\<lambda>kw. occurs_in_task U kw title description) triggers"

text \<open>
  The claim about \<open>next <weekday>\<close> speaks of the weekday that the input names. The names
  of a weekday, Monday being 0 as for \<open>datetime.weekday\<close>, are its English name and the
  first three letters of it; a text names a weekday when its lowercase holds one of these
  names. This table is written from the claim, not from \<open>weekday_map_en\<close>.
\<close>

definition weekday_names :: "int \<Rightarrow> ustr list" where
  "weekday_names k =
     (if k = 0 then [ascii ''monday'', ascii ''mon'']
      else if k = 1 then [ascii ''tuesday'', ascii ''tue'']
      else if k = 2 then [ascii ''wednesday'', ascii ''wed'']
      else if k = 3 then [ascii ''thursday'', ascii ''thu'']
      else if k = 4 then [ascii ''friday'', ascii ''fri'']
      else if k = 5 then [ascii ''saturday'', ascii ''sat'']
      else if k = 6 then [ascii ''sunday'', ascii ''sun'']
      else [])"

definition names_weekday :: "unicode \<Rightarrow> ustr \<Rightarrow> int \<Rightarrow> bool" where
  "names_weekday U text k = list_ex (contains (u_lower U text)) (weekday_names k)"

text \<open>
  A "next weekday" input for the weekday \<open>k\<close>: the lowercase text holds \<open>next\<close>, the text
  names the weekday \<open>k\<close> and no other weekday, and it holds none of the cues for today,
  tomorrow and the day after tomorrow, which \<open>_parse_relative_date\<close> looks for first.
\<close>

definition next_weekday_input :: "unicode \<Rightarrow> ustr \<Rightarrow> int \<Rightarrow> bool" where
  "next_weekday_input U text k \<longleftrightarrow>
     contains (u_lower U text) (ascii ''next'') \<and>
     names_weekday U text k \<and>
     list_all (\<lambda>j. j = k \<or> \<not> names_weekday U text j) [0, 1, 2, 3, 4, 5, 6] \<and>
     \<not> contains text [20170, 22825] \<and> \<not> contains (u_lower U text) (ascii ''today'') \<and>
     \<not> contains text [26126, 22825] \<and> \<not> contains (u_lower U text) (ascii ''tomorrow'') \<and>
     \<not> contains text [21518, 22825] \<and>
     \<not> contains (u_lower U text) (ascii ''day after tomorrow'')"

subsection \<open>Concrete inputs\<close>

text \<open>Monday 1 January 2024, at noon.\<close>

definition new_year_2024 :: datetime where
  "new_year_2024 = \<lparr>ordinal = 738886, hour = 12, minute = 0, second = 0, microsecond = 0\<rparr>"

text \<open>A provider that answers every request with the same values, and one that always
  raises.\<close>

definition fixed_provider :: "dict \<Rightarrow> ustr list \<Rightarrow> ustr list \<Rightarrow> priority \<times> ustr \<Rightarrow> provider" where
  "fixed_provider d tags subtasks rec =
     \<lparr>p_parse = (\<lambda>text. Inr d),
      p_suggest_tags = (\<lambda>title description. Inr tags),
      p_breakdown = (\<lambda>task_description. Inr subtasks),
      p_recommend = (\<lambda>title description. Inr rec)\<rparr>"

definition failing_provider :: provider where
  "failing_provider =
     \<lparr>p_parse = (\<lambda>text. Inl ProviderError),
      p_suggest_tags = (\<lambda>title description. Inl ProviderError),
      p_breakdown = (\<lambda>task_description. Inl ProviderError),
      p_recommend = (\<lambda>title description. Inl ProviderError)\<rparr>"

text \<open>The example of the specification: U+660E U+5929 (tomorrow) U+4E0B U+5348 (afternoon)
  3 U+70B9 (o'clock) U+63D0 U+9192 U+6211 (remind me) U+5F00 U+4F1A (to hold a meeting)
  U+FF0C (comma) U+5F88 U+91CD U+8981 (very important).\<close>

definition meeting_example :: ustr where
  "meeting_example =
     [26126, 22825, 19979, 21320, 51, 28857, 25552, 37266, 25105, 24320, 20250, 65292,
      24456, 37325, 35201]"

section \<open>Evaluation on concrete inputs\<close>

lemmas table_defs = ascii_cjk_def ascii_def ascii_lower_def space_points_def is_word_def

lemmas pattern_defs = cleanup_patterns_def pat_cn_date_def pat_en_date_def pat_cn_time_def
  pat_ampm_def pat_clock_def pat_at_hour_def pat_cn_priority_def pat_en_priority_def
  pat_very_important_def pat_remind_def pat_prep_det_def pat_its_important_def pat_punct_def
  pat_connective_def determiners_def its_def weekday_chars_def word_def digits12_def
  digits2_def spaces0_def spaces1_def

lemmas priority_defs = get_fallback_priority_def content_of_def any_in_def
  high_keywords_def low_keywords_def Let_def

lemmas trigger_defs = has_trigger_def occurs_in_task_def straddles_def startswith_def
  endswith_def high_keywords_def low_keywords_def Let_def

lemmas clean_defs = clean_title_def stripped_title_def erase_all_def py_strip_def

lemmas time_defs = parse_time_hint_def rx_pm_def rx_am_def rx_clock_def rx_cn_clock_def
  group_int_def group_def py_int_def

lemmas date_defs = parse_relative_date_def relative_base_def next_weekday_base_def
  next_week_base_def cn_week_base_def weekday_map_en_def weekday_map_def rx_cn_week_def
  add_days_def replace_time_def weekday_def max_ordinal_def

lemmas tag_defs = get_fallback_tags_def category_tags_def work_label_def content_of_def any_in_def
  work_keywords_def meeting_keywords_def code_keywords_def review_keywords_def
  project_keywords_def report_keywords_def study_keywords_def shopping_keywords_def
  health_keywords_def personal_keywords_def finance_keywords_def travel_keywords_def Let_def

section \<open>Properties of priority inference\<close>

lemma contains_iff: "contains s kw \<longleftrightarrow> (\<exists>pre post. s = pre @ kw @ post)"
proof (induction s)
  case Nil
  then show ?case by auto
next
  case (Cons c cs)
  show ?case
  proof
    assume "contains (c # cs) kw"
    then consider "take (length kw) (c # cs) = kw" | "contains cs kw" by auto
    then show "\<exists>pre post. c # cs = pre @ kw @ post"
    proof cases
      case 1
      then have "c # cs = [] @ kw @ drop (length kw) (c # cs)"
        by (metis append_Nil append_take_drop_id)
      then show ?thesis by blast
    next
      case 2
      with Cons.IH obtain pre post where "cs = pre @ kw @ post" by blast
      then have "c # cs = (c # pre) @ kw @ post" by simp
      then show ?thesis by blast
    qed
  next
    assume "\<exists>pre post. c # cs = pre @ kw @ post"
    then obtain pre post where eq: "c # cs = pre @ kw @ post" by blast
    show "contains (c # cs) kw"
    proof (cases pre)
      case Nil
      with eq have "take (length kw) (c # cs) = kw" by simp
      then show ?thesis by simp
    next
      case (Cons p ps)
      with eq have "cs = ps @ kw @ post" by simp
      with Cons.IH have "contains cs kw" by blast
      then show ?thesis by simp
    qed
  qed
qed

lemma startswith_iff: "startswith s x \<longleftrightarrow> (\<exists>post. s = x @ post)"
proof
  assume "startswith s x"
  then have "s = x @ drop (length x) s"
    unfolding startswith_def by (metis append_take_drop_id)
  then show "\<exists>post. s = x @ post" by blast
next
  assume "\<exists>post. s = x @ post"
  then show "startswith s x" by (auto simp: startswith_def)
qed

lemma endswith_iff: "endswith s x \<longleftrightarrow> (\<exists>pre. s = pre @ x)"
proof
  assume "endswith s x"
  then have "s = take (length s - length x) s @ x"
    unfolding endswith_def by (metis append_take_drop_id)
  then show "\<exists>pre. s = pre @ x" by blast
next
  assume "\<exists>pre. s = pre @ x"
  then show "endswith s x" by (auto simp: endswith_def)
qed

lemma straddles_iff:
  "straddles a b kw \<longleftrightarrow> (\<exists>x y. kw = x @ [32] @ y \<and> endswith a x \<and> startswith b y)"
proof
  assume "straddles a b kw"
  then obtain i where i: "i < length kw" "kw ! i = 32" "endswith a (take i kw)"
    "startswith b (drop (Suc i) kw)"
    by (auto simp: straddles_def list_ex_iff)
  from i(1,2) have "kw = take i kw @ [32] @ drop (Suc i) kw"
    using id_take_nth_drop [of i kw] by simp
  with i(3,4) show "\<exists>x y. kw = x @ [32] @ y \<and> endswith a x \<and> startswith b y" by blast
next
  assume "\<exists>x y. kw = x @ [32] @ y \<and> endswith a x \<and> startswith b y"
  then obtain x y where xy: "kw = x @ [32] @ y" "endswith a x" "startswith b y" by blast
  then have "length x < length kw" "kw ! length x = 32" "take (length x) kw = x"
    "drop (Suc (length x)) kw = y"
    by simp_all
  with xy(2,3) show "straddles a b kw"
    unfolding straddles_def list_ex_iff by (metis atLeastLessThan_iff set_upt zero_le)
qed

lemma contains_joined:
  "contains (a @ [32] @ b) kw \<longleftrightarrow> contains a kw \<or> contains b kw \<or> straddles a b kw"
proof
  assume "contains (a @ [32] @ b) kw"
  then obtain pre post where eq: "a @ [32] @ b = pre @ kw @ post"
    unfolding contains_iff by blast
  then consider us where "a = pre @ us" "us @ [32] @ b = kw @ post"
    | us where "a @ us = pre" "[32] @ b = us @ kw @ post"
    by (auto simp: append_eq_append_conv2)
  then show "contains a kw \<or> contains b kw \<or> straddles a b kw"
  proof cases
    case 1
    from 1(2) consider vs where "us = kw @ vs" | vs where "us @ vs = kw" "[32] @ b = vs @ post"
      by (auto simp: append_eq_append_conv2)
    then show ?thesis
    proof cases
      case 1
      with \<open>a = pre @ us\<close> have "a = pre @ kw @ vs" by simp
      then show ?thesis unfolding contains_iff by blast
    next
      case 2
      show ?thesis
      proof (cases vs)
        case Nil
        with 2 \<open>a = pre @ us\<close> have "a = pre @ kw @ []" by simp
        then show ?thesis unfolding contains_iff by blast
      next
        case (Cons v vs')
        with 2 have "kw = us @ [32] @ vs'" "b = vs' @ post" by auto
        moreover from \<open>a = pre @ us\<close> have "endswith a us" unfolding endswith_iff by blast
        moreover from \<open>b = vs' @ post\<close> have "startswith b vs'"
          unfolding startswith_iff by blast
        ultimately show ?thesis unfolding straddles_iff by blast
      qed
    qed
  next
    case 2
    show ?thesis
    proof (cases us)
      case Nil
      with 2 have k: "kw @ post = [32] @ b" by simp
      show ?thesis
      proof (cases kw)
        case Nil
        then show ?thesis by (cases a) simp_all
      next
        case (Cons k kw')
        with k have "kw = [] @ [32] @ kw'" "b = kw' @ post" by auto
        moreover have "endswith a []" by (simp add: endswith_def)
        moreover from \<open>b = kw' @ post\<close> have "startswith b kw'"
          unfolding startswith_iff by blast
        ultimately show ?thesis unfolding straddles_iff by blast
      qed
    next
      case (Cons u us')
      with 2 have "b = us' @ kw @ post" by simp
      then show ?thesis unfolding contains_iff by blast
    qed
  qed
next
  assume "contains a kw \<or> contains b kw \<or> straddles a b kw"
  then consider "contains a kw" | "contains b kw" | "straddles a b kw" by blast
  then show "contains (a @ [32] @ b) kw"
  proof cases
    case 1
    then obtain pre post where "a = pre @ kw @ post" unfolding contains_iff by blast
    then have "a @ [32] @ b = pre @ kw @ (post @ [32] @ b)" by simp
    then show ?thesis unfolding contains_iff by blast
  next
    case 2
    then obtain pre post where "b = pre @ kw @ post" unfolding contains_iff by blast
    then have "a @ [32] @ b = (a @ [32] @ pre) @ kw @ post" by simp
    then show ?thesis unfolding contains_iff by blast
  next
    case 3
    then obtain x y where "kw = x @ [32] @ y" "endswith a x" "startswith b y"
      unfolding straddles_iff by blast
    then obtain pre post where "a = pre @ x" "b = y @ post" "kw = x @ [32] @ y"
      unfolding endswith_iff startswith_iff by blast
    then have "a @ [32] @ b = pre @ kw @ post" by simp
    then show ?thesis unfolding contains_iff by blast
  qed
qed

lemma has_trigger_scan:
  assumes "lower_splits_at_space U"
  shows "has_trigger U triggers title description = any_in triggers (content_of U title description)"
proof -
  from assms have eq: "content_of U title description =
      u_lower U title @ [32] @ u_lower U (case description of None \<Rightarrow> [] | Some d \<Rightarrow> d)"
    unfolding content_of_def lower_splits_at_space_def by blast
  show ?thesis
    unfolding has_trigger_def occurs_in_task_def any_in_def eq Let_def list_ex_iff
    using contains_joined by blast
qed

lemma ascii_cjk_lower_splits: "lower_splits_at_space ascii_cjk"
  by (simp add: lower_splits_at_space_def ascii_cjk_def ascii_lower_def)

text \<open>
  C5. The high-priority triggers are checked before the low-priority ones. A task in which
  a high trigger occurs, in the title or in the description, in any case of the letters,
  is HIGH, also when a low trigger occurs in it; a task in which a low trigger occurs and
  no high one is LOW; a task in which neither occurs is MEDIUM. The hypothesis on the
  tables is that lowercasing works on each side of a space by itself.
\<close>

theorem fallback_priority_high_before_low:
  assumes "lower_splits_at_space U"
  shows
    "(has_trigger U high_keywords title description
        \<longrightarrow> fst (get_fallback_priority U title description) = HIGH) \<and>
     (\<not> has_trigger U high_keywords title description
        \<and> has_trigger U low_keywords title description
        \<longrightarrow> fst (get_fallback_priority U title description) = LOW) \<and>
     (\<not> has_trigger U high_keywords title description
        \<and> \<not> has_trigger U low_keywords title description
        \<longrightarrow> fst (get_fallback_priority U title description) = MEDIUM)"
  by (simp add: has_trigger_scan [OF assms] get_fallback_priority_def Let_def)

text \<open>The witness: a high and a low trigger in the description only, in capitals; a high
  trigger across the title and the description; a low trigger alone; no trigger.\<close>

theorem fallback_priority_high_before_low_witness:
  "lower_splits_at_space ascii_cjk \<and>
   has_trigger ascii_cjk high_keywords (ascii ''Weekly sync'') (Some (ascii ''URGENT but optional'')) \<and>
   has_trigger ascii_cjk low_keywords (ascii ''Weekly sync'') (Some (ascii ''URGENT but optional'')) \<and>
   fst (get_fallback_priority ascii_cjk (ascii ''Weekly sync'')
          (Some (ascii ''URGENT but optional''))) = HIGH \<and>
   has_trigger ascii_cjk high_keywords (ascii ''Priority'') (Some (ascii ''high, please'')) \<and>
   fst (get_fallback_priority ascii_cjk (ascii ''Priority'') (Some (ascii ''high, please''))) = HIGH \<and>
   \<not> has_trigger ascii_cjk high_keywords (ascii ''do it whenever'') None \<and>
   has_trigger ascii_cjk low_keywords (ascii ''do it whenever'') None \<and>
   fst (get_fallback_priority ascii_cjk (ascii ''do it whenever'') None) = LOW \<and>
   \<not> has_trigger ascii_cjk high_keywords (ascii ''buy milk'') (Some (ascii ''two litres'')) \<and>
   \<not> has_trigger ascii_cjk low_keywords (ascii ''buy milk'') (Some (ascii ''two litres'')) \<and>
   fst (get_fallback_priority ascii_cjk (ascii ''buy milk'') (Some (ascii ''two litres''))) = MEDIUM"
proof -
  have h1: "has_trigger ascii_cjk high_keywords (ascii ''Weekly sync'')
              (Some (ascii ''URGENT but optional''))"
    by (simp add: trigger_defs table_defs)
  have l1: "has_trigger ascii_cjk low_keywords (ascii ''Weekly sync'')
              (Some (ascii ''URGENT but optional''))"
    by (simp add: trigger_defs table_defs)
  have h2: "has_trigger ascii_cjk high_keywords (ascii ''Priority'') (Some (ascii ''high, please''))"
    by (simp add: trigger_defs table_defs)
  have h3: "\<not> has_trigger ascii_cjk high_keywords (ascii ''do it whenever'') None"
    by (simp add: trigger_defs table_defs)
  have l3: "has_trigger ascii_cjk low_keywords (ascii ''do it whenever'') None"
    by (simp add: trigger_defs table_defs)
  have h4: "\<not> has_trigger ascii_cjk high_keywords (ascii ''buy milk'') (Some (ascii ''two litres''))"
    by (simp add: trigger_defs table_defs)
  have l4: "\<not> has_trigger ascii_cjk low_keywords (ascii ''buy milk'') (Some (ascii ''two litres''))"
    by (simp add: trigger_defs table_defs)
  note t = fallback_priority_high_before_low [OF ascii_cjk_lower_splits]
  from t [of "ascii ''Weekly sync''" "Some (ascii ''URGENT but optional'')"] h1
  have r1: "fst (get_fallback_priority ascii_cjk (ascii ''Weekly sync'')
          (Some (ascii ''URGENT but optional''))) = HIGH" by blast
  from t [of "ascii ''Priority''" "Some (ascii ''high, please'')"] h2
  have r2: "fst (get_fallback_priority ascii_cjk (ascii ''Priority'')
          (Some (ascii ''high, please''))) = HIGH" by blast
  from t [of "ascii ''do it whenever''" None] h3 l3
  have r3: "fst (get_fallback_priority ascii_cjk (ascii ''do it whenever'') None) = LOW" by blast
  from t [of "ascii ''buy milk''" "Some (ascii ''two litres'')"] h4 l4
  have r4: "fst (get_fallback_priority ascii_cjk (ascii ''buy milk'')
          (Some (ascii ''two litres''))) = MEDIUM" by blast
  from ascii_cjk_lower_splits h1 l1 r1 h2 r2 h3 l3 r3 h4 l4 r4 show ?thesis by simp
qed

text \<open>The triggers that the specification gives as examples are among the keywords:
  \<open>urgent\<close>, \<open>critical\<close>, \<open>asap\<close>, U+7D27 U+6025, U+91CD U+8981, U+5C3D U+5FEB for high,
  \<open>low priority\<close>, \<open>optional\<close>, U+4E0D U+6025, U+6709 U+7A7A for low.\<close>

lemma example_triggers_listed:
  "set [ascii ''urgent'', ascii ''critical'', ascii ''asap'', [32039, 24613], [37325, 35201],
        [23613, 24555]] \<subseteq> set high_keywords \<and>
   set [ascii ''low priority'', ascii ''optional'', [19981, 24613], [26377, 31354]]
     \<subseteq> set low_keywords"
  by (simp add: high_keywords_def low_keywords_def)

section \<open>Properties of the orchestrator\<close>

lemma try_from_all_fail:
  "\<forall>q \<in> set ps. isl (call q) \<Longrightarrow>
     fst (try_from i call ps) = None \<and>
     consulted (snd (try_from i call ps)) = [i..<i + length ps] \<and>
     FallbackUsed \<notin> set (snd (try_from i call ps))"
proof (induction ps arbitrary: i)
  case Nil
  then show ?case by simp
next
  case (Cons q ps)
  from Cons.prems obtain e where e: "call q = Inl e" by (cases "call q") auto
  obtain res log where tf: "try_from (Suc i) call ps = (res, log)" by force
  from Cons.prems have "\<forall>q \<in> set ps. isl (call q)" by simp
  from Cons.IH [OF this, of "Suc i"] tf
  have ih: "res = None" "consulted log = [Suc i..<Suc i + length ps]" "FallbackUsed \<notin> set log"
    by simp_all
  have "i < i + length (q # ps)" by simp
  then have "[i..<i + length (q # ps)] = i # [Suc i..<i + length (q # ps)]"
    by (rule upt_conv_Cons)
  then have up: "[i..<i + length (q # ps)] = i # [Suc i..<Suc i + length ps]"
    by (simp only: length_Cons add_Suc_right add_Suc)
  show ?case
    unfolding up using e tf ih by simp
qed

lemma try_from_first_answer:
  "\<forall>q \<in> set fs. isl (call q) \<Longrightarrow> call p = Inr r \<Longrightarrow>
     fst (try_from i call (fs @ p # rest)) = Some r \<and>
     consulted (snd (try_from i call (fs @ p # rest))) = [i..<Suc (i + length fs)] \<and>
     FallbackUsed \<notin> set (snd (try_from i call (fs @ p # rest)))"
proof (induction fs arbitrary: i)
  case Nil
  then show ?case by simp
next
  case (Cons q fs)
  from Cons.prems obtain e where e: "call q = Inl e" by (cases "call q") auto
  obtain res log where tf: "try_from (Suc i) call (fs @ p # rest) = (res, log)" by force
  from Cons.prems have "\<forall>q \<in> set fs. isl (call q)" by simp
  from Cons.IH [OF this Cons.prems(2), of "Suc i"] tf
  have ih: "res = Some r" "consulted log = [Suc i..<Suc (Suc i + length fs)]"
    "FallbackUsed \<notin> set log"
    by simp_all
  have "i < Suc (i + length (q # fs))" by simp
  then have "[i..<Suc (i + length (q # fs))] = i # [Suc i..<Suc (i + length (q # fs))]"
    by (rule upt_conv_Cons)
  then have up: "[i..<Suc (i + length (q # fs))] = i # [Suc i..<Suc (Suc i + length fs)]"
    by (simp only: length_Cons add_Suc_right add_Suc)
  show ?case
    unfolding up using e tf ih by simp
qed

text \<open>Every provider list is of one of the two shapes.\<close>

lemma providers_cases:
  "(\<forall>q \<in> set ps. isl (call q)) \<or>
   (\<exists>fs p rest r. ps = fs @ p # rest \<and> (\<forall>q \<in> set fs. isl (call q)) \<and> call p = Inr r)"
proof (induction ps)
  case Nil
  then show ?case by simp
next
  case (Cons q ps)
  show ?case
  proof (cases "call q")
    case (Inr r)
    then have "q # ps = [] @ q # ps \<and> (\<forall>q \<in> set []. isl (call q)) \<and> call q = Inr r" by simp
    then show ?thesis by blast
  next
    case (Inl e)
    from Cons.IH show ?thesis
    proof
      assume "\<forall>q \<in> set ps. isl (call q)"
      with Inl show ?thesis by simp
    next
      assume "\<exists>fs p rest r. ps = fs @ p # rest \<and> (\<forall>q \<in> set fs. isl (call q)) \<and> call p = Inr r"
      then obtain fs p rest r where "ps = fs @ p # rest" "\<forall>q \<in> set fs. isl (call q)" "call p = Inr r"
        by blast
      with Inl have "q # ps = (q # fs) @ p # rest \<and> (\<forall>q \<in> set (q # fs). isl (call q)) \<and> call p = Inr r"
        by simp
      then show ?thesis by blast
    qed
  qed
qed

lemma breakdown_all_fail:
  assumes "\<forall>q \<in> set ps. isl (p_breakdown q d)"
  shows "fst (breakdown_task ps d) =
           [[20934, 22791, 32] @ d, [25191, 34892, 32] @ d, [23436, 25104, 32] @ d]"
proof -
  obtain res log where tp: "try_providers (\<lambda>p. p_breakdown p d) ps = (res, log)" by force
  with try_from_all_fail [OF assms, of 0] have "res = None"
    by (simp add: try_providers_def)
  with tp show ?thesis by (simp add: breakdown_task_def)
qed

text \<open>
  C10. When every provider raises, or the list of providers is empty, \<open>breakdown_task\<close>
  returns exactly three subtasks: the description prefixed with U+51C6 U+5907 (prepare),
  with U+6267 U+884C (execute) and with U+5B8C U+6210 (complete), in this order, so each of
  them holds the description verbatim.
\<close>

theorem breakdown_fallback_three_steps:
  assumes "\<forall>q \<in> set providers. isl (p_breakdown q task_description)"
  shows "fst (breakdown_task providers task_description) =
           [[20934, 22791, 32] @ task_description,
            [25191, 34892, 32] @ task_description,
            [23436, 25104, 32] @ task_description] \<and>
         length (fst (breakdown_task providers task_description)) = 3 \<and>
         list_all (\<lambda>subtask. contains subtask task_description)
           (fst (breakdown_task providers task_description))"
proof -
  have c: "contains (pre @ task_description) task_description" for pre
    unfolding contains_iff by (metis append_Nil2)
  show ?thesis
    using c [of "[20934, 22791, 32]"] c [of "[25191, 34892, 32]"] c [of "[23436, 25104, 32]"]
    by (simp add: breakdown_all_fail [OF assms] del: contains.simps)
qed

theorem breakdown_fallback_three_steps_witness:
  "isl (p_breakdown failing_provider (ascii ''ship it'')) \<and>
   fst (breakdown_task [failing_provider, failing_provider] (ascii ''ship it'')) =
     [[20934, 22791, 32] @ ascii ''ship it'', [25191, 34892, 32] @ ascii ''ship it'',
      [23436, 25104, 32] @ ascii ''ship it''] \<and>
   fst (breakdown_task [] (ascii ''ship it'')) =
     [[20934, 22791, 32] @ ascii ''ship it'', [25191, 34892, 32] @ ascii ''ship it'',
      [23436, 25104, 32] @ ascii ''ship it'']"
proof -
  have f: "isl (p_breakdown failing_provider (ascii ''ship it''))"
    by (simp add: failing_provider_def)
  then have a: "\<forall>q \<in> set [failing_provider, failing_provider]. isl (p_breakdown q (ascii ''ship it''))"
    by simp
  have b: "\<forall>q \<in> set ([] :: provider list). isl (p_breakdown q (ascii ''ship it''))"
    by simp
  show ?thesis
    using f breakdown_fallback_three_steps [OF a] breakdown_fallback_three_steps [OF b]
    by simp
qed

lemma try_from_no_fallback: "FallbackUsed \<notin> set (snd (try_from i call ps))"
proof (induction ps arbitrary: i)
  case Nil
  then show ?case by simp
next
  case (Cons q ps)
  obtain res log where tf: "try_from (Suc i) call ps = (res, log)" by force
  with Cons.IH [of "Suc i"] have "FallbackUsed \<notin> set log" by simp
  with tf show ?case by (cases "call q") simp_all
qed

lemma consulted_append: "consulted (log @ log') = consulted log @ consulted log'"
  by (induction log rule: consulted.induct) simp_all

lemma suggest_tags_answer:
  "fst (suggest_tags U providers title description) =
     (case fst (try_providers (\<lambda>p. p_suggest_tags p title description) providers) of
        Some (t # ts) \<Rightarrow> t # ts
      | _ \<Rightarrow> get_fallback_tags U title description) \<and>
   (FallbackUsed \<in> set (snd (suggest_tags U providers title description))) =
     (fst (try_providers (\<lambda>p. p_suggest_tags p title description) providers) \<in> {None, Some []}) \<and>
   consulted (snd (suggest_tags U providers title description)) =
     consulted (snd (try_providers (\<lambda>p. p_suggest_tags p title description) providers))"
proof -
  obtain res log where tp:
    "try_providers (\<lambda>p. p_suggest_tags p title description) providers = (res, log)" by force
  with try_from_no_fallback [of 0 "\<lambda>p. p_suggest_tags p title description" providers]
  have "FallbackUsed \<notin> set log" by (simp add: try_providers_def)
  with tp show ?thesis
    by (auto simp: suggest_tags_def consulted_append split: option.splits list.splits)
qed

lemma breakdown_answer:
  "fst (breakdown_task providers d) =
     (case fst (try_providers (\<lambda>p. p_breakdown p d) providers) of
        Some (t # ts) \<Rightarrow> t # ts
      | _ \<Rightarrow> [[20934, 22791, 32] @ d, [25191, 34892, 32] @ d, [23436, 25104, 32] @ d]) \<and>
   (FallbackUsed \<in> set (snd (breakdown_task providers d))) =
     (fst (try_providers (\<lambda>p. p_breakdown p d) providers) \<in> {None, Some []}) \<and>
   consulted (snd (breakdown_task providers d)) =
     consulted (snd (try_providers (\<lambda>p. p_breakdown p d) providers))"
proof -
  obtain res log where tp: "try_providers (\<lambda>p. p_breakdown p d) providers = (res, log)" by force
  with try_from_no_fallback [of 0 "\<lambda>p. p_breakdown p d" providers]
  have "FallbackUsed \<notin> set log" by (simp add: try_providers_def)
  with tp show ?thesis
    by (auto simp: breakdown_task_def consulted_append split: option.splits list.splits)
qed

lemma parse_answer:
  "fst (parse_natural_language U providers now text) =
     (case fst (try_providers (\<lambda>p. p_parse p text) providers) of
        Some (kv # d) \<Rightarrow> Inr (override_priority U text (kv # d))
      | _ \<Rightarrow> parse_fallback U now text) \<and>
   (FallbackUsed \<in> set (snd (parse_natural_language U providers now text))) =
     (fst (try_providers (\<lambda>p. p_parse p text) providers) \<in> {None, Some []}) \<and>
   consulted (snd (parse_natural_language U providers now text)) =
     consulted (snd (try_providers (\<lambda>p. p_parse p text) providers))"
proof -
  obtain res log where tp: "try_providers (\<lambda>p. p_parse p text) providers = (res, log)" by force
  with try_from_no_fallback [of 0 "\<lambda>p. p_parse p text" providers]
  have "FallbackUsed \<notin> set log" by (simp add: try_providers_def)
  with tp show ?thesis
    by (auto simp: parse_natural_language_def consulted_append split: option.splits list.splits)
qed

lemma recommend_answer:
  "fst (recommend_priority U providers title description) =
     (case fst (try_providers (\<lambda>p. p_recommend p title description) providers) of
        Some r \<Rightarrow> r
      | None \<Rightarrow> get_fallback_priority U title description) \<and>
   (FallbackUsed \<in> set (snd (recommend_priority U providers title description))) =
     (fst (try_providers (\<lambda>p. p_recommend p title description) providers) = None) \<and>
   consulted (snd (recommend_priority U providers title description)) =
     consulted (snd (try_providers (\<lambda>p. p_recommend p title description) providers))"
proof -
  obtain res log where tp:
    "try_providers (\<lambda>p. p_recommend p title description) providers = (res, log)" by force
  with try_from_no_fallback [of 0 "\<lambda>p. p_recommend p title description" providers]
  have "FallbackUsed \<notin> set log" by (simp add: try_providers_def)
  with tp show ?thesis
    by (auto simp: recommend_priority_def consulted_append split: option.splits)
qed

text \<open>What \<open>override_priority\<close> changes in a dictionary: the priority, and nothing else.\<close>

lemma map_of_dict_set: "map_of (dict_set d k v) k = Some v"
  by (induction d k v rule: dict_set.induct) simp_all

lemma map_of_dict_set_other: "k' \<noteq> k \<Longrightarrow> map_of (dict_set d k v) k' = map_of d k'"
  by (induction d k v rule: dict_set.induct) simp_all

lemma dict_get_set: "dict_get (dict_set d k v) k = v"
  by (simp add: dict_get_def map_of_dict_set)

lemma override_priority_entries:
  "(\<forall>k. k \<noteq> ascii ''priority'' \<longrightarrow> map_of (override_priority U text d) k = map_of d k) \<and>
   map_of (override_priority U text d) (ascii ''priority'') =
     Some (VStr (case normalize_priority U
                        (if fst (get_fallback_priority U text None) \<noteq> MEDIUM
                         then VStr (priority_value (fst (get_fallback_priority U text None)))
                         else dict_get d (ascii ''priority'')) of
                   None \<Rightarrow> ascii ''medium''
                 | Some s \<Rightarrow> if s \<noteq> [] then s else ascii ''medium''))"
  by (simp add: override_priority_def Let_def map_of_dict_set map_of_dict_set_other dict_get_set)

text \<open>
  C3 (amended). The orchestrator calls the providers in the order of the list and stops at
  the first one that does not raise: with the providers \<open>fs\<close> raising and \<open>p\<close> answering \<open>r\<close>,
  the answer is \<open>r\<close> and the providers consulted are those up to \<open>p\<close>, none of \<open>rest\<close>; with
  every provider raising (or none configured) there is no answer. Each operation uses
  the answer when it is not empty (\<open>recommend_priority\<close>: always) and the result of the
  Deterministic Extractor otherwise; so the Extractor is used exactly when there is no
  answer or the answer is the empty dictionary or list, and it consults no provider.
  \<open>suggest_tags\<close>, \<open>breakdown_task\<close> and \<open>recommend_priority\<close> return the answer as it is.
  \<open>parse_natural_language\<close> returns the answer with its priority rewritten and every other
  entry as the provider gave it: the priority is that of the keyword scan of the text
  when the scan gives high or low, and the provider's own otherwise, passed through the
  normaliser in both cases, with \<open>medium\<close> instead of a missing, false or blank one.
\<close>

theorem first_answer_decides:
  "((\<forall>q \<in> set fs. isl (call q)) \<and> call p = Inr r \<longrightarrow>
      fst (try_providers call (fs @ p # rest)) = Some r \<and>
      consulted (snd (try_providers call (fs @ p # rest))) = [0..<Suc (length fs)]) \<and>
   ((\<forall>q \<in> set ps. isl (call q)) \<longrightarrow>
      fst (try_providers call ps) = None \<and>
      consulted (snd (try_providers call ps)) = [0..<length ps]) \<and>
   fst (parse_natural_language U providers now text) =
     (case fst (try_providers (\<lambda>p. p_parse p text) providers) of
        Some (kv # d) \<Rightarrow> Inr (override_priority U text (kv # d))
      | _ \<Rightarrow> parse_fallback U now text) \<and>
   (\<forall>k. k \<noteq> ascii ''priority'' \<longrightarrow> map_of (override_priority U text answer) k = map_of answer k) \<and>
   map_of (override_priority U text answer) (ascii ''priority'') =
     Some (VStr (case normalize_priority U
                        (if fst (get_fallback_priority U text None) \<noteq> MEDIUM
                         then VStr (priority_value (fst (get_fallback_priority U text None)))
                         else dict_get answer (ascii ''priority'')) of
                   None \<Rightarrow> ascii ''medium''
                 | Some s \<Rightarrow> if s \<noteq> [] then s else ascii ''medium'')) \<and>
   (FallbackUsed \<in> set (snd (parse_natural_language U providers now text))) =
     (fst (try_providers (\<lambda>p. p_parse p text) providers) \<in> {None, Some []}) \<and>
   consulted (snd (parse_natural_language U providers now text)) =
     consulted (snd (try_providers (\<lambda>p. p_parse p text) providers)) \<and>
   fst (suggest_tags U providers title description) =
     (case fst (try_providers (\<lambda>p. p_suggest_tags p title description) providers) of
        Some (t # ts) \<Rightarrow> t # ts
      | _ \<Rightarrow> get_fallback_tags U title description) \<and>
   (FallbackUsed \<in> set (snd (suggest_tags U providers title description))) =
     (fst (try_providers (\<lambda>p. p_suggest_tags p title description) providers) \<in> {None, Some []}) \<and>
   consulted (snd (suggest_tags U providers title description)) =
     consulted (snd (try_providers (\<lambda>p. p_suggest_tags p title description) providers)) \<and>
   fst (breakdown_task providers task_description) =
     (case fst (try_providers (\<lambda>p. p_breakdown p task_description) providers) of
        Some (t # ts) \<Rightarrow> t # ts
      | _ \<Rightarrow> [[20934, 22791, 32] @ task_description, [25191, 34892, 32] @ task_description,
              [23436, 25104, 32] @ task_description]) \<and>
   (FallbackUsed \<in> set (snd (breakdown_task providers task_description))) =
     (fst (try_providers (\<lambda>p. p_breakdown p task_description) providers) \<in> {None, Some []}) \<and>
   consulted (snd (breakdown_task providers task_description)) =
     consulted (snd (try_providers (\<lambda>p. p_breakdown p task_description) providers)) \<and>
   fst (recommend_priority U providers title description) =
     (case fst (try_providers (\<lambda>p. p_recommend p title description) providers) of
        Some r \<Rightarrow> r
      | None \<Rightarrow> get_fallback_priority U title description) \<and>
   (FallbackUsed \<in> set (snd (recommend_priority U providers title description))) =
     (fst (try_providers (\<lambda>p. p_recommend p title description) providers) = None) \<and>
   consulted (snd (recommend_priority U providers title description)) =
     consulted (snd (try_providers (\<lambda>p. p_recommend p title description) providers))"
proof -
  have a: "(\<forall>q \<in> set fs. isl (call q)) \<and> call p = Inr r \<longrightarrow>
      fst (try_providers call (fs @ p # rest)) = Some r \<and>
      consulted (snd (try_providers call (fs @ p # rest))) = [0..<Suc (length fs)]"
    using try_from_first_answer [of fs call p r 0 rest] by (simp add: try_providers_def)
  have b: "(\<forall>q \<in> set ps. isl (call q)) \<longrightarrow>
      fst (try_providers call ps) = None \<and>
      consulted (snd (try_providers call ps)) = [0..<length ps]"
    using try_from_all_fail [of ps call 0] by (simp add: try_providers_def)
  show ?thesis
    using a b parse_answer [of U providers now "text"]
      override_priority_entries [of U "text" answer]
      suggest_tags_answer [of U providers title description]
      breakdown_answer [of providers task_description]
      recommend_answer [of U providers title description]
    by blast
qed

text \<open>
  C3 as stated fails where a provider succeeds with an empty answer, as \<open>suggest_tags\<close> of
  both providers does for a reply that is JSON but not a list: no provider has raised,
  and the result is the Extractor's.
\<close>

theorem empty_answer_counterexample:
  "p_suggest_tags (fixed_provider [] [] [] (MEDIUM, [])) (ascii ''buy milk'') None = Inr [] \<and>
   suggest_tags ascii_cjk [fixed_provider [] [] [] (MEDIUM, [])] (ascii ''buy milk'') None =
     ([ascii ''Shopping''], [Succeeded 0, FallbackUsed])"
  by (simp add: suggest_tags_def try_providers_def fixed_provider_def tag_defs table_defs)


text \<open>The witness: the second of three providers answers the tags \<open>Home\<close>; and an answer
  with the priority \<open>LOW\<close> between spaces, for a text without trigger, comes back with the
  priority \<open>low\<close> and its title unchanged.\<close>

theorem first_answer_decides_witness:
  "isl (p_suggest_tags failing_provider (ascii ''buy milk'') None) \<and>
   p_suggest_tags (fixed_provider [] [ascii ''Home''] [] (MEDIUM, [])) (ascii ''buy milk'') None =
     Inr [ascii ''Home''] \<and>
   fst (try_providers (\<lambda>p. p_suggest_tags p (ascii ''buy milk'') None)
          ([failing_provider] @ fixed_provider [] [ascii ''Home''] [] (MEDIUM, [])
             # [failing_provider])) = Some [ascii ''Home''] \<and>
   consulted (snd (try_providers (\<lambda>p. p_suggest_tags p (ascii ''buy milk'') None)
          ([failing_provider] @ fixed_provider [] [ascii ''Home''] [] (MEDIUM, [])
             # [failing_provider]))) = [0, 1] \<and>
   fst (try_providers (\<lambda>p. p_suggest_tags p (ascii ''buy milk'') None)
          [failing_provider, failing_provider]) = None \<and>
   consulted (snd (try_providers (\<lambda>p. p_suggest_tags p (ascii ''buy milk'') None)
          [failing_provider, failing_provider])) = [0, 1] \<and>
   fst (suggest_tags ascii_cjk
          ([failing_provider] @ fixed_provider [] [ascii ''Home''] [] (MEDIUM, [])
             # [failing_provider]) (ascii ''buy milk'') None) = [ascii ''Home''] \<and>
   FallbackUsed \<notin> set (snd (suggest_tags ascii_cjk
          ([failing_provider] @ fixed_provider [] [ascii ''Home''] [] (MEDIUM, [])
             # [failing_provider]) (ascii ''buy milk'') None)) \<and>
   ascii ''title'' \<noteq> ascii ''priority'' \<and>
   map_of (override_priority ascii_cjk (ascii ''buy milk'')
             [(ascii ''title'', VStr (ascii ''Milk'')), (ascii ''priority'', VStr (ascii '' LOW ''))])
     (ascii ''title'') = Some (VStr (ascii ''Milk'')) \<and>
   map_of (override_priority ascii_cjk (ascii ''buy milk'')
             [(ascii ''title'', VStr (ascii ''Milk'')), (ascii ''priority'', VStr (ascii '' LOW ''))])
     (ascii ''priority'') = Some (VStr (ascii ''low''))"
proof -
  have f: "isl (p_suggest_tags failing_provider (ascii ''buy milk'') None)"
    by (simp add: failing_provider_def)
  have g: "p_suggest_tags (fixed_provider [] [ascii ''Home''] [] (MEDIUM, []))
             (ascii ''buy milk'') None = Inr [ascii ''Home'']"
    by (simp add: fixed_provider_def)
  have fs: "\<forall>q \<in> set [failing_provider]. isl (p_suggest_tags q (ascii ''buy milk'') None)"
    using f by simp
  have ps: "\<forall>q \<in> set [failing_provider, failing_provider].
              isl (p_suggest_tags q (ascii ''buy milk'') None)"
    using f by simp
  have up: "[0..<Suc (length [failing_provider])] = [0, 1]"
    "[0..<length [failing_provider, failing_provider]] = [0, 1]"
    by (simp_all add: upt_rec)
  have k: "ascii ''title'' \<noteq> ascii ''priority''" by (simp add: ascii_def)
  have m: "fst (get_fallback_priority ascii_cjk (ascii ''buy milk'') None) = MEDIUM"
    by (simp add: priority_defs table_defs)
  have n: "normalize_priority ascii_cjk (VStr (ascii '' LOW '')) = Some (ascii ''low'')"
    by (simp add: normalize_priority_def py_strip_def Let_def table_defs)
  have d: "dict_get [(ascii ''title'', VStr (ascii ''Milk'')),
                     (ascii ''priority'', VStr (ascii '' LOW ''))] (ascii ''priority'') =
           VStr (ascii '' LOW '')"
    by (simp add: dict_get_def ascii_def)
  have l: "ascii ''low'' \<noteq> []" by (simp add: ascii_def)
  note t = first_answer_decides [where fs = "[failing_provider]"
        and call = "\<lambda>p. p_suggest_tags p (ascii ''buy milk'') None"
        and p = "fixed_provider [] [ascii ''Home''] [] (MEDIUM, [])"
        and r = "[ascii ''Home'']" and rest = "[failing_provider]"
        and ps = "[failing_provider, failing_provider]" and U = ascii_cjk
        and providers = "[failing_provider] @ fixed_provider [] [ascii ''Home''] [] (MEDIUM, [])
             # [failing_provider]"
        and title = "ascii ''buy milk''" and description = None
        and ?text = "ascii ''buy milk''"
        and answer = "[(ascii ''title'', VStr (ascii ''Milk'')),
                       (ascii ''priority'', VStr (ascii '' LOW ''))]"]
  let ?D = "[(ascii ''title'', VStr (ascii ''Milk'')), (ascii ''priority'', VStr (ascii '' LOW ''))]"
  from t have "\<forall>k. k \<noteq> ascii ''priority'' \<longrightarrow>
      map_of (override_priority ascii_cjk (ascii ''buy milk'') ?D) k = map_of ?D k"
    by blast
  with k have "map_of (override_priority ascii_cjk (ascii ''buy milk'') ?D) (ascii ''title'') =
      map_of ?D (ascii ''title'')"
    by blast
  then have t1: "map_of (override_priority ascii_cjk (ascii ''buy milk'') ?D) (ascii ''title'') =
      Some (VStr (ascii ''Milk''))"
    by simp
  from t have "map_of (override_priority ascii_cjk (ascii ''buy milk'') ?D) (ascii ''priority'') =
     Some (VStr (case normalize_priority ascii_cjk
                        (if fst (get_fallback_priority ascii_cjk (ascii ''buy milk'') None) \<noteq> MEDIUM
                         then VStr (priority_value
                                (fst (get_fallback_priority ascii_cjk (ascii ''buy milk'') None)))
                         else dict_get ?D (ascii ''priority'')) of
                   None \<Rightarrow> ascii ''medium''
                 | Some s \<Rightarrow> if s \<noteq> [] then s else ascii ''medium''))"
    by blast
  then have t2: "map_of (override_priority ascii_cjk (ascii ''buy milk'') ?D) (ascii ''priority'') =
      Some (VStr (ascii ''low''))"
    by (simp add: m d n l)
  let ?C = "\<lambda>p. p_suggest_tags p (ascii ''buy milk'') None"
  let ?L = "[failing_provider] @ fixed_provider [] [ascii ''Home''] [] (MEDIUM, [])
             # [failing_provider]"
  from t fs g have a: "fst (try_providers ?C ?L) = Some [ascii ''Home''] \<and>
      consulted (snd (try_providers ?C ?L)) = [0..<Suc (length [failing_provider])]"
    by blast
  from t ps have b: "fst (try_providers ?C [failing_provider, failing_provider]) = None \<and>
      consulted (snd (try_providers ?C [failing_provider, failing_provider])) =
        [0..<length [failing_provider, failing_provider]]"
    by blast
  from t have "fst (suggest_tags ascii_cjk ?L (ascii ''buy milk'') None) =
     (case fst (try_providers ?C ?L) of
        Some (t # ts) \<Rightarrow> t # ts
      | _ \<Rightarrow> get_fallback_tags ascii_cjk (ascii ''buy milk'') None)"
    by blast
  with a have s: "fst (suggest_tags ascii_cjk ?L (ascii ''buy milk'') None) = [ascii ''Home'']"
    by simp
  from t have "(FallbackUsed \<in> set (snd (suggest_tags ascii_cjk ?L (ascii ''buy milk'') None))) =
     (fst (try_providers ?C ?L) \<in> {None, Some []})"
    by blast
  with a have n: "FallbackUsed \<notin> set (snd (suggest_tags ascii_cjk ?L (ascii ''buy milk'') None))"
    by simp
  from f g a b s n k t1 t2 show ?thesis
    unfolding up by blast
qed


section \<open>Properties of the priority override and of normalisation\<close>

lemma conformant_space:
  "ascii_conformant U \<Longrightarrow> c < 128 \<Longrightarrow> u_isspace U c = (c \<in> set space_points)"
  by (simp add: ascii_conformant_def)

lemma conformant_lower:
  "ascii_conformant U \<Longrightarrow> list_all (\<lambda>c. c < 128) s \<Longrightarrow> u_lower U s = map ascii_lower s"
  by (simp add: ascii_conformant_def)

lemma normalize_high:
  assumes "ascii_conformant U"
  shows "normalize_priority U (VStr (ascii ''high'')) = Some (ascii ''high'')"
proof -
  have s: "py_strip U (ascii ''high'') = ascii ''high''"
    by (simp add: py_strip_def ascii_def conformant_space [OF assms] space_points_def)
  have l: "u_lower U (ascii ''high'') = ascii ''high''"
    by (simp add: conformant_lower [OF assms] ascii_def ascii_lower_def)
  show ?thesis
    by (simp add: normalize_priority_def s l Let_def) (simp add: ascii_def)
qed

lemma normalize_low:
  assumes "ascii_conformant U"
  shows "normalize_priority U (VStr (ascii ''low'')) = Some (ascii ''low'')"
proof -
  have s: "py_strip U (ascii ''low'') = ascii ''low''"
    by (simp add: py_strip_def ascii_def conformant_space [OF assms] space_points_def)
  have l: "u_lower U (ascii ''low'') = ascii ''low''"
    by (simp add: conformant_lower [OF assms] ascii_def ascii_lower_def)
  show ?thesis
    by (simp add: normalize_priority_def s l Let_def) (simp add: ascii_def)
qed

lemma override_priority_forced:
  assumes "ascii_conformant U" and "fst (get_fallback_priority U text None) \<noteq> MEDIUM"
  shows "map_of (override_priority U text d) (ascii ''priority'') =
           Some (VStr (priority_value (fst (get_fallback_priority U text None))))"
proof (cases "fst (get_fallback_priority U text None)")
  case LOW
  then show ?thesis
    by (simp add: override_priority_def Let_def dict_get_set map_of_dict_set
        normalize_low [OF assms(1)]) (simp add: ascii_def)
next
  case MEDIUM
  with assms(2) show ?thesis by simp
next
  case HIGH
  then show ?thesis
    by (simp add: override_priority_def Let_def dict_get_set map_of_dict_set
        normalize_high [OF assms(1)]) (simp add: ascii_def)
qed

lemma parse_fallback_priority:
  "case parse_fallback U now text of
     Inr d \<Rightarrow> map_of d (ascii ''priority'') =
               Some (VStr (priority_value (fst (get_fallback_priority U text None))))
   | Inl e \<Rightarrow> parse_relative_date U now text = Inl e"
  by (simp add: parse_fallback_def Let_def ascii_def split: sum.splits)


text \<open>
  C1 (amended). Let the keyword scan of the text be HIGH or LOW (it is HIGH for every text
  with a high trigger, by \<open>get_fallback_priority\<close>). Then whatever the providers return,
  the priority of the result of \<open>parse_natural_language\<close> is the scanned one; the only other
  outcome is that no provider gave a usable answer and the date resolution of the fallback
  raised. \<open>recommend_priority\<close> has no override: it returns the keyword result when every
  provider raises, and the answer of the first provider that does not raise, unchanged,
  otherwise.
\<close>

theorem keyword_scan_overrides_parse:
  assumes "ascii_conformant U"
    and "fst (get_fallback_priority U text None) \<noteq> MEDIUM"
  shows
    "(case fst (parse_natural_language U providers now text) of
        Inr d \<Rightarrow> map_of d (ascii ''priority'') =
                  Some (VStr (priority_value (fst (get_fallback_priority U text None))))
      | Inl e \<Rightarrow> parse_relative_date U now text = Inl e \<and>
                  fst (try_providers (\<lambda>p. p_parse p text) providers) \<in> {None, Some []}) \<and>
     ((\<forall>q \<in> set providers. isl (p_recommend q text description)) \<longrightarrow>
        fst (recommend_priority U providers text description) =
          get_fallback_priority U text description) \<and>
     ((\<forall>q \<in> set fs. isl (p_recommend q text description)) \<and>
      p_recommend p text description = Inr r \<longrightarrow>
        fst (recommend_priority U (fs @ p # rest) text description) = r)"
proof -
  have parse: "case fst (parse_natural_language U providers now text) of
        Inr d \<Rightarrow> map_of d (ascii ''priority'') =
                  Some (VStr (priority_value (fst (get_fallback_priority U text None))))
      | Inl e \<Rightarrow> parse_relative_date U now text = Inl e \<and>
                  fst (try_providers (\<lambda>p. p_parse p text) providers) \<in> {None, Some []}"
  proof (cases "fst (try_providers (\<lambda>p. p_parse p text) providers)")
    case None
    with parse_answer [of U providers now "text"]
    have "fst (parse_natural_language U providers now text) = parse_fallback U now text"
      by simp
    with None parse_fallback_priority [of U now "text"] show ?thesis
      by (simp split: sum.splits)
  next
    case (Some d)
    show ?thesis
    proof (cases d)
      case Nil
      with Some parse_answer [of U providers now "text"]
      have "fst (parse_natural_language U providers now text) = parse_fallback U now text"
        by simp
      with Some Nil parse_fallback_priority [of U now "text"] show ?thesis
        by (simp split: sum.splits)
    next
      case (Cons kv d')
      with Some parse_answer [of U providers now "text"]
      have "fst (parse_natural_language U providers now text) =
              Inr (override_priority U text (kv # d'))"
        by simp
      with override_priority_forced [OF assms, of "kv # d'"] show ?thesis by simp
    qed
  qed
  have rec_fail: "(\<forall>q \<in> set providers. isl (p_recommend q text description)) \<longrightarrow>
        fst (recommend_priority U providers text description) =
          get_fallback_priority U text description"
    using try_from_all_fail [of providers "\<lambda>p. p_recommend p text description" 0]
      recommend_answer [of U providers "text" description]
    by (simp add: try_providers_def)
  have rec_first: "(\<forall>q \<in> set fs. isl (p_recommend q text description)) \<and>
      p_recommend p text description = Inr r \<longrightarrow>
        fst (recommend_priority U (fs @ p # rest) text description) = r"
    using try_from_first_answer [of fs "\<lambda>p. p_recommend p text description" p r 0 rest]
      recommend_answer [of U "fs @ p # rest" "text" description]
    by (simp add: try_providers_def)
  from parse rec_fail rec_first show ?thesis by blast
qed

lemma ascii_cjk_conformant: "ascii_conformant ascii_cjk"
  by (simp add: ascii_conformant_def ascii_cjk_def)

theorem keyword_scan_overrides_parse_witness:
  "ascii_conformant ascii_cjk \<and>
   fst (get_fallback_priority ascii_cjk (ascii ''urgent: pay bill'') None) = HIGH \<and>
   fst (parse_natural_language ascii_cjk
          [fixed_provider [(ascii ''title'', VStr (ascii ''Pay bill'')),
                           (ascii ''priority'', VStr (ascii ''low''))] [] [] (LOW, [])]
          new_year_2024 (ascii ''urgent: pay bill'')) =
     Inr [(ascii ''title'', VStr (ascii ''Pay bill'')),
          (ascii ''priority'', VStr (ascii ''high''))] \<and>
   isl (p_recommend failing_provider (ascii ''urgent: pay bill'') None) \<and>
   fst (fst (recommend_priority ascii_cjk [failing_provider] (ascii ''urgent: pay bill'') None)) = HIGH"
proof -
  have c: "ascii_conformant ascii_cjk" by (rule ascii_cjk_conformant)
  have h: "fst (get_fallback_priority ascii_cjk (ascii ''urgent: pay bill'') None) = HIGH"
    by (simp add: priority_defs table_defs)
  then have m: "fst (get_fallback_priority ascii_cjk (ascii ''urgent: pay bill'') None) \<noteq> MEDIUM"
    by simp
  have f: "isl (p_recommend failing_provider (ascii ''urgent: pay bill'') None)"
    by (simp add: failing_provider_def)
  have p: "fst (parse_natural_language ascii_cjk
          [fixed_provider [(ascii ''title'', VStr (ascii ''Pay bill'')),
                           (ascii ''priority'', VStr (ascii ''low''))] [] [] (LOW, [])]
          new_year_2024 (ascii ''urgent: pay bill'')) =
     Inr (override_priority ascii_cjk (ascii ''urgent: pay bill'')
            [(ascii ''title'', VStr (ascii ''Pay bill'')),
             (ascii ''priority'', VStr (ascii ''low''))])"
    by (simp add: parse_natural_language_def try_providers_def fixed_provider_def)
  have o: "override_priority ascii_cjk (ascii ''urgent: pay bill'')
            [(ascii ''title'', VStr (ascii ''Pay bill'')),
             (ascii ''priority'', VStr (ascii ''low''))] =
           [(ascii ''title'', VStr (ascii ''Pay bill'')),
            (ascii ''priority'', VStr (ascii ''high''))]"
    using normalize_high [OF c]
    by (simp add: override_priority_def h dict_get_def Let_def) (simp add: ascii_def)
  have a: "\<forall>q \<in> set [failing_provider]. isl (p_recommend q (ascii ''urgent: pay bill'') None)"
    using f by simp
  from keyword_scan_overrides_parse [OF c m,
      where providers = "[failing_provider]" and description = None]
  have "fst (recommend_priority ascii_cjk [failing_provider] (ascii ''urgent: pay bill'') None) =
          get_fallback_priority ascii_cjk (ascii ''urgent: pay bill'') None"
    using a by blast
  with c h f p o show ?thesis by simp
qed

text \<open>
  C1 as stated fails for \<open>recommend_priority\<close>: the text holds the trigger \<open>urgent\<close> and the
  provider's LOW is returned.
\<close>

theorem recommend_priority_not_overridden:
  "any_in high_keywords (content_of ascii_cjk (ascii ''urgent: pay bill'') None) \<and>
   fst (recommend_priority ascii_cjk [fixed_provider [] [] [] (LOW, ascii ''can wait'')]
          (ascii ''urgent: pay bill'') None) = (LOW, ascii ''can wait'')"
proof -
  have "any_in high_keywords (content_of ascii_cjk (ascii ''urgent: pay bill'') None)"
    by (simp add: priority_defs table_defs)
  then show ?thesis
    by (simp add: recommend_priority_def try_providers_def fixed_provider_def)
qed

text \<open>The recognised spellings are normalised: U+9AD8, \<open>HIGH\<close> and \<open>h\<close> all give \<open>high\<close>,
  also with white space around them.\<close>

lemma recognized_priorities_normalized:
  "normalize_priority ascii_cjk (VStr [39640]) = Some (ascii ''high'') \<and>
   normalize_priority ascii_cjk (VStr (ascii ''HIGH'')) = Some (ascii ''high'') \<and>
   normalize_priority ascii_cjk (VStr (ascii ''h'')) = Some (ascii ''high'') \<and>
   normalize_priority ascii_cjk (VStr (ascii '' Low '')) = Some (ascii ''low'') \<and>
   normalize_priority ascii_cjk (VStr [20013, 31561]) = Some (ascii ''medium'') \<and>
   normalize_priority ascii_cjk VNone = None"
  by (simp add: normalize_priority_def py_strip_def Let_def table_defs)

text \<open>
  C4. A priority that the normaliser does not recognise is not replaced by \<open>medium\<close>:
  \<open>_normalize_priority\<close> returns it stripped and lowercased, and \<open>or "medium"\<close> only
  replaces \<open>None\<close> and the empty string. For the text \<open>buy milk\<close> and a provider that
  answers with the priority \<open>normal\<close>, the result of \<open>parse_natural_language\<close> holds the
  priority \<open>normal\<close>, which is none of \<open>low\<close>, \<open>medium\<close>, \<open>high\<close>.
\<close>

theorem unrecognized_priority_kept:
  "fst (parse_natural_language ascii_cjk
          [fixed_provider [(ascii ''title'', VStr (ascii ''Buy milk'')),
                           (ascii ''priority'', VStr (ascii ''normal''))] [] [] (MEDIUM, [])]
          now (ascii ''buy milk'')) =
     Inr [(ascii ''title'', VStr (ascii ''Buy milk'')),
          (ascii ''priority'', VStr (ascii ''normal''))]"
proof -
  have m: "fst (get_fallback_priority ascii_cjk (ascii ''buy milk'') None) = MEDIUM"
    by (simp add: priority_defs table_defs)
  have n: "normalize_priority ascii_cjk (VStr (ascii ''normal'')) = Some (ascii ''normal'')"
    by (simp add: normalize_priority_def py_strip_def Let_def table_defs)
  have o: "override_priority ascii_cjk (ascii ''buy milk'')
            [(ascii ''title'', VStr (ascii ''Buy milk'')),
             (ascii ''priority'', VStr (ascii ''normal''))] =
           [(ascii ''title'', VStr (ascii ''Buy milk'')),
            (ascii ''priority'', VStr (ascii ''normal''))]"
    using n by (simp add: override_priority_def m dict_get_def Let_def) (simp add: ascii_def)
  show ?thesis
    by (simp add: parse_natural_language_def try_providers_def fixed_provider_def o)
qed

text \<open>
  A priority that is not a string goes through \<open>str\<close>: for the JSON list \<open>["high"]\<close> the
  normaliser returns the text of the list, a bracket, the \<open>repr\<close> of \<open>high\<close> between
  apostrophes (39) and a bracket, and this is the priority of the result.
\<close>

lemma list_priority_stringified:
  "normalize_priority ascii_cjk (VList [ascii ''high'']) =
     Some ([91, 39] @ ascii ''high'' @ [39, 93]) \<and>
   fst (parse_natural_language ascii_cjk
          [fixed_provider [(ascii ''title'', VStr (ascii ''Buy milk'')),
                           (ascii ''priority'', VList [ascii ''high''])] [] [] (MEDIUM, [])]
          now (ascii ''buy milk'')) =
     Inr [(ascii ''title'', VStr (ascii ''Buy milk'')),
          (ascii ''priority'', VStr ([91, 39] @ ascii ''high'' @ [39, 93]))]"
proof -
  have m: "fst (get_fallback_priority ascii_cjk (ascii ''buy milk'') None) = MEDIUM"
    by (simp add: priority_defs table_defs)
  have n: "normalize_priority ascii_cjk (VList [ascii ''high'']) =
     Some ([91, 39] @ ascii ''high'' @ [39, 93])"
    by (simp add: normalize_priority_def py_strip_def py_repr_def repr_char_def Let_def table_defs)
  have o: "override_priority ascii_cjk (ascii ''buy milk'')
            [(ascii ''title'', VStr (ascii ''Buy milk'')),
             (ascii ''priority'', VList [ascii ''high''])] =
           [(ascii ''title'', VStr (ascii ''Buy milk'')),
            (ascii ''priority'', VStr ([91, 39] @ ascii ''high'' @ [39, 93]))]"
    using n by (simp add: override_priority_def m dict_get_def Let_def) (simp add: ascii_def)
  show ?thesis
    by (simp add: parse_natural_language_def try_providers_def fixed_provider_def o n)
qed

section \<open>Properties of date and time resolution\<close>

text \<open>\<open>3:00 PM\<close>, which the comment of \<open>_parse_time_hint\<close> lists among the formats, is read
  as 12:00: the pattern for \<open>pm\<close> comes first and takes the minutes \<open>00\<close> for the hour.\<close>

lemma time_hint_3_00_pm: "parse_time_hint ascii_cjk (ascii ''3:00 PM'') = Some (12, 0)"
  by (simp add: time_defs pattern_defs table_defs Let_def)

lemma time_hint_1030pm: "parse_time_hint ascii_cjk (ascii ''tomorrow 10:30 pm'') = Some (30, 0)"
  by (simp add: time_defs pattern_defs table_defs Let_def)

lemma base_tomorrow:
  "relative_base ascii_cjk now (ascii ''tomorrow 10:30 pm'') =
     (case add_days now 1 of Inl e \<Rightarrow> Inl e | Inr d \<Rightarrow> Inr (Some d))"
  by (simp add: relative_base_def table_defs Let_def)

text \<open>
  C2. With no provider, \<open>parse_natural_language\<close> raises on the text \<open>tomorrow 10:30 pm\<close>,
  at every time of the clock: \<open>_parse_time_hint\<close> reads the hour 30 (the digits before
  \<open>pm\<close>), and \<open>datetime.replace\<close> raises \<open>ValueError\<close> for it (\<open>OverflowError\<close> comes first on
  the last day of year 9999). On Monday 1 January 2024 the error is \<open>ValueError\<close>.
\<close>

theorem fallback_parse_raises:
  "isl (fst (parse_natural_language ascii_cjk [] now (ascii ''tomorrow 10:30 pm''))) \<and>
   fst (parse_natural_language ascii_cjk [] new_year_2024 (ascii ''tomorrow 10:30 pm'')) =
     Inl ValueError"
proof -
  have r: "isl (parse_relative_date ascii_cjk d (ascii ''tomorrow 10:30 pm''))" for d
    by (simp add: parse_relative_date_def base_tomorrow time_hint_1030pm add_days_def
        replace_time_def)
  have v: "parse_relative_date ascii_cjk new_year_2024 (ascii ''tomorrow 10:30 pm'') =
             Inl ValueError"
    by (simp add: parse_relative_date_def base_tomorrow time_hint_1030pm add_days_def
        replace_time_def new_year_2024_def max_ordinal_def)
  have p: "fst (parse_natural_language ascii_cjk [] d (ascii ''tomorrow 10:30 pm'')) =
             parse_fallback ascii_cjk d (ascii ''tomorrow 10:30 pm'')" for d
    by (simp add: parse_natural_language_def try_providers_def)
  have "isl (parse_fallback ascii_cjk now (ascii ''tomorrow 10:30 pm''))"
    using r [of now] by (cases "parse_relative_date ascii_cjk now (ascii ''tomorrow 10:30 pm'')")
      (simp_all add: parse_fallback_def)
  moreover have "parse_fallback ascii_cjk new_year_2024 (ascii ''tomorrow 10:30 pm'') =
      Inl ValueError"
    by (simp add: parse_fallback_def v)
  ultimately show ?thesis by (simp add: p)
qed

section \<open>The end-to-end example\<close>

lemma meeting_priority: "fst (get_fallback_priority ascii_cjk meeting_example None) = HIGH"
  by (simp add: priority_defs table_defs meeting_example_def)

lemma meeting_time: "parse_time_hint ascii_cjk meeting_example = Some (15, 0)"
  by (simp add: time_defs pattern_defs table_defs meeting_example_def Let_def)

lemma meeting_base:
  "relative_base ascii_cjk now meeting_example =
     (case add_days now 1 of Inl e \<Rightarrow> Inl e | Inr d \<Rightarrow> Inr (Some d))"
  by (simp add: relative_base_def table_defs meeting_example_def Let_def)

lemma meeting_title: "clean_title ascii_cjk meeting_example = [25552, 37266, 25105, 24320, 20250]"
  by (simp add: clean_defs pattern_defs table_defs meeting_example_def)

lemma meeting_tags: "get_fallback_tags ascii_cjk meeting_example None = [ascii ''Work'']"
  by (simp add: tag_defs table_defs meeting_example_def)

lemma meeting_fallback:
  assumes "0 \<le> ordinal now" and "ordinal now < max_ordinal"
  shows "parse_fallback ascii_cjk now meeting_example =
     Inr [(ascii ''title'', VStr [25552, 37266, 25105, 24320, 20250]),
          (ascii ''description'', VNone),
          (ascii ''priority'', VStr (ascii ''high'')),
          (ascii ''due_date'',
             VIso (now\<lparr>ordinal := ordinal now + 1, hour := 15, minute := 0, second := 0,
                        microsecond := 0\<rparr>)),
          (ascii ''tags'', VList [])]"
  using assms
  by (simp add: parse_fallback_def parse_relative_date_def meeting_base meeting_time
      meeting_title meeting_priority add_days_def replace_time_def)

text \<open>
  C9 (amended). With no provider and the clock before the last day of year 9999, the
  example text is parsed to the priority \<open>high\<close>, the due date tomorrow at 15:00:00, the
  title U+63D0 U+9192 U+6211 U+5F00 U+4F1A (the date, time and priority markers and the
  comma erased) and an empty tag list. Tag inference on the text yields \<open>Work\<close>:
  U+5F00 U+4F1A (to hold a meeting) is not among the meeting keywords, which have
  U+4F1A U+8BAE (meeting).
\<close>

theorem meeting_example_parse:
  assumes "0 \<le> ordinal now" and "ordinal now < max_ordinal"
  shows "fst (parse_natural_language ascii_cjk [] now meeting_example) =
     Inr [(ascii ''title'', VStr [25552, 37266, 25105, 24320, 20250]),
          (ascii ''description'', VNone),
          (ascii ''priority'', VStr (ascii ''high'')),
          (ascii ''due_date'',
             VIso (now\<lparr>ordinal := ordinal now + 1, hour := 15, minute := 0, second := 0,
                        microsecond := 0\<rparr>)),
          (ascii ''tags'', VList [])] \<and>
    fst (suggest_tags ascii_cjk [] meeting_example None) = [ascii ''Work'']"
  by (simp add: parse_natural_language_def suggest_tags_def try_providers_def
      meeting_fallback [OF assms] meeting_tags)

theorem meeting_example_parse_witness:
  "0 \<le> ordinal new_year_2024 \<and> ordinal new_year_2024 < max_ordinal \<and>
   fst (parse_natural_language ascii_cjk [] new_year_2024 meeting_example) =
     Inr [(ascii ''title'', VStr [25552, 37266, 25105, 24320, 20250]),
          (ascii ''description'', VNone),
          (ascii ''priority'', VStr (ascii ''high'')),
          (ascii ''due_date'',
             VIso \<lparr>ordinal = 738887, hour = 15, minute = 0, second = 0, microsecond = 0\<rparr>),
          (ascii ''tags'', VList [])]"
proof -
  have a: "0 \<le> ordinal new_year_2024" by (simp add: new_year_2024_def)
  have b: "ordinal new_year_2024 < max_ordinal" by (simp add: new_year_2024_def max_ordinal_def)
  from meeting_example_parse [OF a b] a b show ?thesis
    by (simp add: new_year_2024_def)
qed

text \<open>C9 as stated fails on the tags: the parse result has none, and tag inference on the
  text gives no meeting label.\<close>

theorem meeting_example_has_no_meeting_tag:
  "map_of (projr (fst (parse_natural_language ascii_cjk [] new_year_2024 meeting_example)))
     (ascii ''tags'') = Some (VList []) \<and>
   ascii ''Meeting'' \<notin> set (fst (suggest_tags ascii_cjk [] meeting_example None))"
proof -
  have a: "0 \<le> ordinal new_year_2024" by (simp add: new_year_2024_def)
  have b: "ordinal new_year_2024 < max_ordinal" by (simp add: new_year_2024_def max_ordinal_def)
  show ?thesis
    by (simp add: parse_natural_language_def suggest_tags_def try_providers_def
      meeting_fallback [OF a b] meeting_tags) (simp add: ascii_def)
qed

section \<open>The next weekday\<close>

lemma weekday_map_en_range: "(name, num) \<in> set weekday_map_en \<Longrightarrow> 0 \<le> num \<and> num \<le> 6"
  by (auto simp: weekday_map_en_def)

lemma find_Some_member: "find P xs = Some x \<Longrightarrow> x \<in> set xs"
  by (induction xs) (auto split: if_splits)

lemma offset_cases:
  fixes n w :: int
  assumes "0 \<le> n" and "n \<le> 6" and "0 \<le> w" and "w \<le> 6"
  shows "(n - w + 7) mod 7 = (if w \<le> n then n - w else n - w + 7)"
proof (cases "w \<le> n")
  case True
  have "(n - w + 7) mod 7 = (n - w) mod 7" by simp
  also from True assms have "(n - w) mod 7 = n - w" by (intro mod_pos_pos_trivial) simp_all
  finally show ?thesis using True by simp
next
  case False
  with assms have "(n - w + 7) mod 7 = n - w + 7" by (intro mod_pos_pos_trivial) simp_all
  with False show ?thesis by simp
qed

lemma next_delta:
  fixes m n :: int
  assumes "0 \<le> n" and "n \<le> 6"
  shows "1 \<le> (if (n - (m + 6) mod 7 + 7) mod 7 = 0 then 7 else (n - (m + 6) mod 7 + 7) mod 7) \<and>
         (if (n - (m + 6) mod 7 + 7) mod 7 = 0 then 7 else (n - (m + 6) mod 7 + 7) mod 7) \<le> 7 \<and>
         (m + (if (n - (m + 6) mod 7 + 7) mod 7 = 0 then 7 else (n - (m + 6) mod 7 + 7) mod 7) + 6)
            mod 7 = n \<and>
         ((m + 6) mod 7 = n \<longrightarrow>
            (if (n - (m + 6) mod 7 + 7) mod 7 = 0 then 7 else (n - (m + 6) mod 7 + 7) mod 7) = 7)"
proof -
  define w where "w = (m + 6) mod 7"
  define q where "q = (m + 6) div 7"
  define d0 where "d0 = (n - w + 7) mod 7"
  define d where "d = (if d0 = 0 then 7 else d0)"
  have wb: "0 \<le> w" "w \<le> 6" by (simp_all add: w_def)
  have m: "m + 6 = 7 * q + w" by (simp add: w_def q_def)
  have d0: "d0 = (if w \<le> n then n - w else n - w + 7)"
    unfolding d0_def using assms wb by (rule offset_cases)
  have dv: "d = (if w < n then n - w else n - w + 7)"
    using assms wb by (auto simp: d_def d0)
  have r: "1 \<le> d" "d \<le> 7" using assms wb by (auto simp: dv)
  have "m + d + 6 = 7 * (if w < n then q else q + 1) + n"
    using m by (simp add: dv)
  then have "(m + d + 6) mod 7 = n mod 7" by (simp only: mod_mult_self4)
  with assms have wd: "(m + d + 6) mod 7 = n" by simp
  have s: "w = n \<longrightarrow> d = 7" by (simp add: dv)
  show ?thesis
    using r wd s unfolding d_def d0_def w_def by blast
qed

lemma weekday_names_listed:
  "name \<in> set (weekday_names k) \<Longrightarrow> (name, k) \<in> set weekday_map_en"
  by (auto simp: weekday_names_def weekday_map_en_def split: if_splits)

lemma weekday_map_en_names:
  "(name, num) \<in> set weekday_map_en \<Longrightarrow>
     name \<in> set (weekday_names num) \<and> num \<in> set [0, 1, 2, 3, 4, 5, 6]"
  by (auto simp: weekday_names_def weekday_map_en_def)

lemma find_Some_holds: "find P xs = Some x \<Longrightarrow> P x"
  by (induction xs) (auto split: if_splits)

lemma sole_weekday_found:
  assumes "names_weekday U text k"
    and "list_all (\<lambda>j. j = k \<or> \<not> names_weekday U text j) [0, 1, 2, 3, 4, 5, 6]"
  shows "\<exists>name. find (\<lambda>(day_name, day_num). contains (u_lower U text) day_name) weekday_map_en
           = Some (name, k)"
proof -
  let ?P = "\<lambda>(day_name, day_num :: int). contains (u_lower U text) day_name"
  from assms(1) obtain n where n: "n \<in> set (weekday_names k)" "contains (u_lower U text) n"
    by (auto simp: names_weekday_def list_ex_iff)
  from n(1) have "(n, k) \<in> set weekday_map_en" by (rule weekday_names_listed)
  have "find ?P weekday_map_en \<noteq> None"
  proof
    assume "find ?P weekday_map_en = None"
    with \<open>(n, k) \<in> set weekday_map_en\<close> have "\<not> ?P (n, k)"
      unfolding find_None_iff by blast
    with n(2) show False by simp
  qed
  then obtain name num where f: "find ?P weekday_map_en = Some (name, num)" by auto
  from find_Some_member [OF f] have "name \<in> set (weekday_names num)"
    "num \<in> set [0, 1, 2, 3, 4, 5, 6]"
    using weekday_map_en_names by blast+
  moreover from find_Some_holds [OF f] have "contains (u_lower U text) name" by simp
  ultimately have "names_weekday U text num" "num \<in> set [0, 1, 2, 3, 4, 5, 6]"
    by (auto simp: names_weekday_def list_ex_iff)
  with assms(2) have "num = k" unfolding list_all_iff by blast
  with f show ?thesis by blast
qed

text \<open>
  C8 (amended). Let the text hold \<open>next\<close>, name the weekday \<open>k\<close> and no other weekday, and
  hold no cue for today, tomorrow or the day after tomorrow; let the clock be at least a
  week before the end of year 9999. Then the relative-date pass resolves to the day
  \<open>delta\<close> days after today, where \<open>1 \<le> delta \<le> 7\<close> and that day has the weekday \<open>k\<close>: the
  next occurrence of the weekday strictly after today. When today is that weekday,
  \<open>delta\<close> is 7. Whatever \<open>_parse_relative_date\<close> returns is on that day; it returns no
  \<open>None\<close>, and the only error it can raise is the \<open>ValueError\<close> of the time of day.
\<close>

theorem next_weekday_strictly_after_today:
  assumes "next_weekday_input U text k"
    and "1 \<le> ordinal now" and "ordinal now + 7 \<le> max_ordinal"
  shows "\<exists>delta. 1 \<le> delta \<and> delta \<le> 7 \<and> (weekday now = k \<longrightarrow> delta = 7) \<and>
           relative_base U now text = Inr (Some (now\<lparr>ordinal := ordinal now + delta\<rparr>)) \<and>
           weekday (now\<lparr>ordinal := ordinal now + delta\<rparr>) = k \<and>
           (case parse_relative_date U now text of
              Inr (Some d) \<Rightarrow> ordinal d = ordinal now + delta
            | Inr None \<Rightarrow> False
            | Inl e \<Rightarrow> e = ValueError)"
proof -
  define delta where "delta =
    (if (k - weekday now + 7) mod 7 = 0 then 7 else (k - weekday now + 7) mod 7)"
  from assms(1) have cues:
    "\<not> contains text [20170, 22825]" "\<not> contains (u_lower U text) (ascii ''today'')"
    "\<not> contains text [26126, 22825]" "\<not> contains (u_lower U text) (ascii ''tomorrow'')"
    "\<not> contains text [21518, 22825]"
    "\<not> contains (u_lower U text) (ascii ''day after tomorrow'')"
    "contains (u_lower U text) (ascii ''next'')"
    and sole: "names_weekday U text k"
      "list_all (\<lambda>j. j = k \<or> \<not> names_weekday U text j) [0, 1, 2, 3, 4, 5, 6]"
    unfolding next_weekday_input_def by blast+
  from sole_weekday_found [OF sole] obtain day_name where
    found: "find (\<lambda>(name, num). contains (u_lower U text) name) weekday_map_en =
              Some (day_name, k)"
    by blast
  from found have "(day_name, k) \<in> set weekday_map_en" by (rule find_Some_member)
  then have range: "0 \<le> k" "k \<le> 6" using weekday_map_en_range by blast+
  have d: "1 \<le> delta \<and> delta \<le> 7 \<and> (ordinal now + delta + 6) mod 7 = k \<and>
    (weekday now = k \<longrightarrow> delta = 7)"
    unfolding delta_def weekday_def by (rule next_delta [OF range])
  from d assms(2,3) have add: "add_days now delta = Inr (now\<lparr>ordinal := ordinal now + delta\<rparr>)"
    by (simp add: add_days_def)
  have nb: "next_weekday_base now (u_lower U text) =
              Inr (Some (now\<lparr>ordinal := ordinal now + delta\<rparr>))"
    unfolding next_weekday_base_def found Let_def option.case prod.case delta_def [symmetric]
    by (simp add: add)
  have base: "relative_base U now text = Inr (Some (now\<lparr>ordinal := ordinal now + delta\<rparr>))"
    unfolding relative_base_def Let_def using cues by (simp add: nb)
  have "(ordinal now + delta + 6) mod 7 = k" using d by blast
  then have wd: "weekday (now\<lparr>ordinal := ordinal now + delta\<rparr>) = k"
    by (simp add: weekday_def)
  have "case parse_relative_date U now text of
              Inr (Some d) \<Rightarrow> ordinal d = ordinal now + delta
            | Inr None \<Rightarrow> False
            | Inl e \<Rightarrow> e = ValueError"
    by (simp add: parse_relative_date_def base replace_time_def split: option.splits)
  with d base wd show ?thesis by blast
qed

lemma next_monday_input: "next_weekday_input ascii_cjk (ascii ''Next Monday'') 0"
  by (simp add: next_weekday_input_def names_weekday_def weekday_names_def table_defs)

text \<open>The witness: on Monday 1 January 2024, \<open>Next Monday\<close> is Monday 8 January.\<close>

theorem next_weekday_strictly_after_today_witness:
  "next_weekday_input ascii_cjk (ascii ''Next Monday'') 0 \<and>
   1 \<le> ordinal new_year_2024 \<and> ordinal new_year_2024 + 7 \<le> max_ordinal \<and>
   weekday new_year_2024 = 0 \<and>
   relative_base ascii_cjk new_year_2024 (ascii ''Next Monday'') =
     Inr (Some (new_year_2024\<lparr>ordinal := 738893\<rparr>))"
proof -
  have a: "1 \<le> ordinal new_year_2024" by (simp add: new_year_2024_def)
  have b: "ordinal new_year_2024 + 7 \<le> max_ordinal"
    by (simp add: new_year_2024_def max_ordinal_def)
  have w: "weekday new_year_2024 = 0" by (simp add: weekday_def new_year_2024_def)
  from next_weekday_strictly_after_today [OF next_monday_input a b] w
  obtain delta where "delta = 7"
    and "relative_base ascii_cjk new_year_2024 (ascii ''Next Monday'') =
           Inr (Some (new_year_2024\<lparr>ordinal := ordinal new_year_2024 + delta\<rparr>))"
    by auto
  then have "relative_base ascii_cjk new_year_2024 (ascii ''Next Monday'') =
     Inr (Some (new_year_2024\<lparr>ordinal := 738893\<rparr>))"
    by (simp add: new_year_2024_def)
  with next_monday_input a b w show ?thesis by simp
qed

text \<open>
  C8 as stated fails where the first name that the loop over \<open>weekday_map_en\<close> finds is not
  the weekday that follows \<open>next\<close>, and where a cue for today comes first in the chain. On
  Monday 1 January 2024 (day 738886), \<open>next fri: monthly report\<close> resolves to Monday
  8 January (day 738893) and not to Friday 5 January, because \<open>mon\<close> occurs in \<open>monthly\<close>;
  \<open>next tuesday, not monday\<close> resolves to Monday 8 January and not to Tuesday 2 January,
  because \<open>monday\<close> comes before \<open>tuesday\<close> in the dictionary; and
  \<open>finish notes today, demo next monday\<close> resolves to the current date.
\<close>

theorem next_weekday_counterexample:
  "weekday new_year_2024 = 0 \<and>
   parse_relative_date ascii_cjk new_year_2024 (ascii ''next fri: monthly report'') =
     Inr (Some \<lparr>ordinal = 738893, hour = 23, minute = 59, second = 0, microsecond = 0\<rparr>) \<and>
   weekday \<lparr>ordinal = 738893, hour = 23, minute = 59, second = 0, microsecond = 0\<rparr> = 0 \<and>
   parse_relative_date ascii_cjk new_year_2024 (ascii ''next tuesday, not monday'') =
     Inr (Some \<lparr>ordinal = 738893, hour = 23, minute = 59, second = 0, microsecond = 0\<rparr>) \<and>
   parse_relative_date ascii_cjk new_year_2024 (ascii ''finish notes today, demo next monday'') =
     Inr (Some \<lparr>ordinal = 738886, hour = 23, minute = 59, second = 0, microsecond = 0\<rparr>)"
proof -
  have t1: "parse_time_hint ascii_cjk (ascii ''next fri: monthly report'') = None"
    by (simp add: time_defs pattern_defs table_defs Let_def)
  have t2: "parse_time_hint ascii_cjk (ascii ''next tuesday, not monday'') = None"
    by (simp add: time_defs pattern_defs table_defs Let_def)
  have t3: "parse_time_hint ascii_cjk (ascii ''finish notes today, demo next monday'') = None"
    by (simp add: time_defs pattern_defs table_defs Let_def)
  have b1: "relative_base ascii_cjk new_year_2024 (ascii ''next fri: monthly report'') =
     Inr (Some (new_year_2024\<lparr>ordinal := 738893\<rparr>))"
    by (simp add: relative_base_def next_weekday_base_def weekday_map_en_def add_days_def
        weekday_def max_ordinal_def new_year_2024_def table_defs Let_def)
  have b2: "relative_base ascii_cjk new_year_2024 (ascii ''next tuesday, not monday'') =
     Inr (Some (new_year_2024\<lparr>ordinal := 738893\<rparr>))"
    by (simp add: relative_base_def next_weekday_base_def weekday_map_en_def add_days_def
        weekday_def max_ordinal_def new_year_2024_def table_defs Let_def)
  have b3: "relative_base ascii_cjk new_year_2024 (ascii ''finish notes today, demo next monday'') =
     Inr (Some new_year_2024)"
    by (simp add: relative_base_def table_defs Let_def)
  have w: "weekday new_year_2024 = 0"
    "weekday \<lparr>ordinal = 738893, hour = 23, minute = 59, second = 0, microsecond = 0\<rparr> = 0"
    by (simp_all add: weekday_def new_year_2024_def)
  have p: "parse_relative_date ascii_cjk new_year_2024 (ascii ''next fri: monthly report'') =
     Inr (Some \<lparr>ordinal = 738893, hour = 23, minute = 59, second = 0, microsecond = 0\<rparr>)"
    "parse_relative_date ascii_cjk new_year_2024 (ascii ''next tuesday, not monday'') =
     Inr (Some \<lparr>ordinal = 738893, hour = 23, minute = 59, second = 0, microsecond = 0\<rparr>)"
    "parse_relative_date ascii_cjk new_year_2024 (ascii ''finish notes today, demo next monday'') =
     Inr (Some \<lparr>ordinal = 738886, hour = 23, minute = 59, second = 0, microsecond = 0\<rparr>)"
    by (simp_all add: parse_relative_date_def t1 t2 t3 b1 b2 b3 replace_time_def)
      (simp_all add: new_year_2024_def)
  from w p show ?thesis by simp
qed

text \<open>\<open>next week\<close>, which the docstring of \<open>_parse_relative_date\<close> lists, names no
  weekday and resolves to no date.\<close>

lemma next_week_unresolved:
  "parse_relative_date ascii_cjk now (ascii ''next week'') = Inr None"
  by (simp add: parse_relative_date_def relative_base_def next_weekday_base_def
      next_week_base_def weekday_map_en_def table_defs Let_def)


section \<open>Properties of the regular expressions\<close>

subsection \<open>Where a match can end\<close>

lemma star_atom_rest:
  "(p', cs', g') \<in> set (star_atom U ic a (p, cs, g)) \<Longrightarrow>
     set cs' \<subseteq> set cs \<and> length cs' \<le> length cs"
proof (induction cs arbitrary: p)
  case Nil
  then show ?case by simp
next
  case (Cons c cs)
  show ?case
  proof (cases "atom_ok U ic a c")
    case True
    with Cons.prems have "(p', cs', g') \<in> set (star_atom U ic a (Some c, cs, g)) \<or>
      (p', cs', g') = (p, c # cs, g)" by auto
    then show ?thesis
    proof
      assume "(p', cs', g') \<in> set (star_atom U ic a (Some c, cs, g))"
      from Cons.IH [OF this] show ?thesis by auto
    next
      assume "(p', cs', g') = (p, c # cs, g)"
      then show ?thesis by simp
    qed
  next
    case False
    with Cons.prems show ?thesis by simp
  qed
qed

lemma rmatch_rest:
  "(p', cs', g') \<in> set (rmatch U ic r (p, cs, g)) \<Longrightarrow>
     set cs' \<subseteq> set cs \<and> length cs' \<le> length cs"
proof (induction r arbitrary: p cs g p' cs' g')
  case Eps
  then show ?case by simp
next
  case (Atom a)
  then show ?case by (cases cs) (auto split: if_splits)
next
  case (Seq r1 r2)
  from Seq.prems obtain p1 cs1 g1 where
    m1: "(p1, cs1, g1) \<in> set (rmatch U ic r1 (p, cs, g))" and
    m2: "(p', cs', g') \<in> set (rmatch U ic r2 (p1, cs1, g1))"
    by auto
  from Seq.IH(1) [OF m1] Seq.IH(2) [OF m2] show ?case by auto
next
  case (Alt r1 r2)
  from Alt.prems have "(p', cs', g') \<in> set (rmatch U ic r1 (p, cs, g)) \<or>
    (p', cs', g') \<in> set (rmatch U ic r2 (p, cs, g))" by simp
  then show ?case using Alt.IH by blast
next
  case (Opt r)
  from Opt.prems have "(p', cs', g') \<in> set (rmatch U ic r (p, cs, g)) \<or>
    (p', cs', g') = (p, cs, g)" by auto
  then show ?case
  proof
    assume "(p', cs', g') \<in> set (rmatch U ic r (p, cs, g))"
    then show ?thesis by (rule Opt.IH)
  next
    assume "(p', cs', g') = (p, cs, g)"
    then show ?thesis by simp
  qed
next
  case (Star a)
  then show ?case using star_atom_rest by simp
next
  case (Grp n r)
  from Grp.prems obtain g1 where "(p', cs', g1) \<in> set (rmatch U ic r (p, cs, g))" by auto
  from Grp.IH [OF this] show ?case .
next
  case WordB
  then show ?case by (auto split: if_splits)
qed

subsection \<open>The patterns of the module consume a character\<close>

text \<open>
  Every match of a pattern consumes at least \<open>min_width\<close> characters. The patterns that
  \<open>_clean_title\<close> substitutes all have a positive \<open>min_width\<close>, so none of them matches the
  empty string, and \<open>re_sub\<close> never takes its branch for an empty match.
\<close>

lemma rmatch_min_width:
  "(p', cs', g') \<in> set (rmatch U ic r (p, cs, g)) \<Longrightarrow> length cs' + min_width r \<le> length cs"
proof (induction r arbitrary: p cs g p' cs' g')
  case Eps
  then show ?case by simp
next
  case (Atom a)
  then show ?case by (cases cs) (auto split: if_splits)
next
  case (Seq r1 r2)
  from Seq.prems obtain p1 cs1 g1 where
    m1: "(p1, cs1, g1) \<in> set (rmatch U ic r1 (p, cs, g))" and
    m2: "(p', cs', g') \<in> set (rmatch U ic r2 (p1, cs1, g1))"
    by auto
  from Seq.IH(1) [OF m1] Seq.IH(2) [OF m2] show ?case by simp
next
  case (Alt r1 r2)
  from Alt.prems have "(p', cs', g') \<in> set (rmatch U ic r1 (p, cs, g)) \<or>
    (p', cs', g') \<in> set (rmatch U ic r2 (p, cs, g))" by simp
  then show ?case
  proof
    assume "(p', cs', g') \<in> set (rmatch U ic r1 (p, cs, g))"
    from Alt.IH(1) [OF this] show ?thesis by simp
  next
    assume "(p', cs', g') \<in> set (rmatch U ic r2 (p, cs, g))"
    from Alt.IH(2) [OF this] show ?thesis by simp
  qed
next
  case (Opt r)
  from Opt.prems have "(p', cs', g') \<in> set (rmatch U ic r (p, cs, g)) \<or>
    (p', cs', g') = (p, cs, g)" by auto
  then show ?case
  proof
    assume "(p', cs', g') \<in> set (rmatch U ic r (p, cs, g))"
    from Opt.IH [OF this] show ?thesis by simp
  next
    assume "(p', cs', g') = (p, cs, g)"
    then show ?thesis by simp
  qed
next
  case (Star a)
  then show ?case using star_atom_rest by simp
next
  case (Grp n r)
  from Grp.prems obtain g1 where "(p', cs', g1) \<in> set (rmatch U ic r (p, cs, g))" by auto
  from Grp.IH [OF this] show ?case by simp
next
  case WordB
  then show ?case by (auto split: if_splits)
qed

lemma patterns_consume:
  "list_all (\<lambda>pat. 0 < min_width pat) (spaces1 # pat_connective # cleanup_patterns)"
  by (simp add: pattern_defs ascii_def)

lemma re_sub_consuming:
  assumes "0 < min_width r"
  shows "re_sub U ic r repl p [] = []"
    and "re_sub U ic r repl p (c # cs) =
      (case rmatch U ic r (p, c # cs, []) of
         [] \<Rightarrow> c # re_sub U ic r repl (Some c) cs
       | (p', cs', g') # ms \<Rightarrow> repl @ re_sub U ic r repl p' cs')"
proof -
  have "rmatch U ic r (p, [], []) = []"
  proof (cases "rmatch U ic r (p, [], [])")
    case Nil
    then show ?thesis .
  next
    case (Cons m ms)
    obtain p' cs' g' where "m = (p', cs', g')" by (cases m)
    with Cons have "(p', cs', g') \<in> set (rmatch U ic r (p, [], []))" by simp
    from rmatch_min_width [OF this] assms show ?thesis by simp
  qed
  then show "re_sub U ic r repl p [] = []" by simp
  show "re_sub U ic r repl p (c # cs) =
      (case rmatch U ic r (p, c # cs, []) of
         [] \<Rightarrow> c # re_sub U ic r repl (Some c) cs
       | (p', cs', g') # ms \<Rightarrow> repl @ re_sub U ic r repl p' cs')"
  proof (cases "rmatch U ic r (p, c # cs, [])")
    case Nil
    then show ?thesis by simp
  next
    case (Cons m ms)
    obtain p' cs' g' where m: "m = (p', cs', g')" by (cases m)
    with Cons have "(p', cs', g') \<in> set (rmatch U ic r (p, c # cs, []))" by simp
    from rmatch_min_width [OF this] assms have "length cs' < Suc (length cs)" by simp
    with Cons m show ?thesis by simp
  qed
qed

subsection \<open>Substitution where nothing matches\<close>

lemma rmatch_Grp_Nil: "rmatch U ic (Grp n r) st = [] \<longleftrightarrow> rmatch U ic r st = []"
  by (cases st) simp

lemma re_search_None_here:
  assumes "re_search U ic r p s = None"
  shows "rmatch U ic r (p, s, []) = []"
proof -
  from assms have "rmatch U ic (Grp 0 r) (p, s, []) = []"
    by (cases s) (auto simp del: rmatch.simps split: list.splits)
  then show ?thesis by (simp only: rmatch_Grp_Nil)
qed

lemma re_sub_no_match: "re_search U ic r p s = None \<Longrightarrow> re_sub U ic r repl p s = s"
proof (induction s arbitrary: p)
  case Nil
  from re_search_None_here [OF Nil] show ?case by simp
next
  case (Cons c cs)
  from re_search_None_here [OF Cons.prems] have here: "rmatch U ic r (p, c # cs, []) = []" .
  then have "rmatch U ic (Grp 0 r) (p, c # cs, []) = []" by (simp only: rmatch_Grp_Nil)
  with Cons.prems have "re_search U ic r (Some c) cs = None" by (simp del: rmatch.simps)
  from Cons.IH [OF this] here show ?case by simp
qed

lemma erase_all_no_match:
  "list_all (\<lambda>pat. re_search U True pat None s = None) pats \<Longrightarrow> erase_all U pats s = s"
  by (induction pats) (simp_all add: erase_all_def re_sub_no_match)

subsection \<open>Substitution adds nothing but the replacement\<close>

lemma re_sub_subset: "set (re_sub U ic r repl p s) \<subseteq> set repl \<union> set s"
proof (induction "length s" arbitrary: p s rule: less_induct)
  case less
  show ?case
  proof (cases s)
    case Nil
    then show ?thesis by (auto split: list.splits)
  next
    case s: (Cons c cs)
    show ?thesis
    proof (cases "rmatch U ic r (p, c # cs, [])")
      case Nil
      moreover have "set (re_sub U ic r repl (Some c) cs) \<subseteq> set repl \<union> set cs"
        using s by (intro less) simp
      ultimately show ?thesis using s by auto
    next
      case (Cons m ms)
      obtain p' cs' g' where m: "m = (p', cs', g')" by (cases m)
      with Cons have "(p', cs', g') \<in> set (rmatch U ic r (p, c # cs, []))" by simp
      from rmatch_rest [OF this] have sub: "set cs' \<subseteq> set (c # cs)" by simp
      show ?thesis
      proof (cases "length cs' < Suc (length cs)")
        case True
        then have "set (re_sub U ic r repl p' cs') \<subseteq> set repl \<union> set cs'"
          using s by (intro less) simp
        with True Cons m s sub show ?thesis by (auto simp del: rmatch.simps)
      next
        case False
        have "set (re_sub U ic r repl (Some c) cs) \<subseteq> set repl \<union> set cs"
          using s by (intro less) simp
        with False Cons m s show ?thesis by (auto simp del: rmatch.simps)
      qed
    qed
  qed
qed


subsection \<open>Collapsing white space\<close>

lemma star_atom_nonempty: "star_atom U ic a (p, cs, g) \<noteq> []"
  by (induction cs arbitrary: p) auto

lemma rmatch_spaces1_Nil: "rmatch U ic spaces1 (p, [], g) = []"
  by (simp add: spaces1_def)

lemma rmatch_spaces1_Cons:
  "rmatch U ic spaces1 (p, c # cs, g) =
     (if u_isspace U c then star_atom U ic Space (Some c, cs, g) else [])"
  by (simp add: spaces1_def)

lemma collapse_spaces_only:
  "x \<in> set (re_sub U False spaces1 [32] p s) \<Longrightarrow> u_isspace U x \<Longrightarrow> x = 32"
proof (induction "length s" arbitrary: p s rule: less_induct)
  case less
  show ?case
  proof (cases s)
    case Nil
    with less.prems show ?thesis by (simp add: rmatch_spaces1_Nil)
  next
    case s: (Cons c cs)
    show ?thesis
    proof (cases "u_isspace U c")
      case False
      with less.prems s have "x = c \<or> x \<in> set (re_sub U False spaces1 [32] (Some c) cs)"
        by (simp add: rmatch_spaces1_Cons)
      then show ?thesis
      proof
        assume "x = c"
        with False less.prems(2) show ?thesis by simp
      next
        assume "x \<in> set (re_sub U False spaces1 [32] (Some c) cs)"
        with s less.prems(2) show ?thesis by (intro less.hyps [of cs "Some c"]) simp_all
      qed
    next
      case True
      obtain m ms where ms: "star_atom U False Space (Some c, cs, []) = m # ms"
        using star_atom_nonempty [of U False Space "Some c" cs "[]"]
        by (cases "star_atom U False Space (Some c, cs, [])") auto
      obtain p' cs' g' where m: "m = (p', cs', g')" by (cases m)
      with ms have "(p', cs', g') \<in> set (star_atom U False Space (Some c, cs, []))" by simp
      from star_atom_rest [OF this] have len: "length cs' < Suc (length cs)" by simp
      with True ms m s
      have "re_sub U False spaces1 [32] p s = 32 # re_sub U False spaces1 [32] p' cs'"
        by (simp add: rmatch_spaces1_Cons del: star_atom.simps)
      with less.prems(1) have "x = 32 \<or> x \<in> set (re_sub U False spaces1 [32] p' cs')" by simp
      then show ?thesis
      proof
        assume "x = 32"
        then show ?thesis .
      next
        assume "x \<in> set (re_sub U False spaces1 [32] p' cs')"
        with len s less.prems(2) show ?thesis by (intro less.hyps [of cs' p']) simp_all
      qed
    qed
  qed
qed

lemma collapse_fixed:
  "\<forall>x \<in> set s. u_isspace U x \<longrightarrow> x = 32 \<Longrightarrow> \<not> contains s [32, 32] \<Longrightarrow>
     re_sub U False spaces1 [32] p s = s"
proof (induction s arbitrary: p)
  case Nil
  show ?case by (simp add: rmatch_spaces1_Nil)
next
  case (Cons c cs)
  from Cons.prems have tl: "\<forall>x \<in> set cs. u_isspace U x \<longrightarrow> x = 32" "\<not> contains cs [32, 32]"
    by simp_all
  note ih = Cons.IH [OF tl]
  show ?case
  proof (cases "u_isspace U c")
    case False
    then show ?thesis by (simp add: rmatch_spaces1_Cons ih)
  next
    case True
    with Cons.prems(1) have c: "c = 32" by simp
    have "star_atom U False Space (Some c, cs, []) = [(Some c, cs, [])]"
    proof (cases cs)
      case Nil
      then show ?thesis by simp
    next
      case (Cons c' cs')
      have "\<not> u_isspace U c'"
      proof
        assume sp: "u_isspace U c'"
        with tl(1) Cons have "c' = 32" by simp
        with c Cons Cons.prems(2) show False by simp
      qed
      with Cons show ?thesis by simp
    qed
    with True c show ?thesis
      by (simp add: rmatch_spaces1_Cons ih del: star_atom.simps)
  qed
qed

subsection \<open>Stripping\<close>

lemma set_py_strip: "set (py_strip U s) \<subseteq> set s"
proof -
  have "set (py_strip U s) \<subseteq> set (dropWhile (u_isspace U) s)"
    unfolding py_strip_def by (metis set_dropWhileD set_rev subsetI)
  also have "\<dots> \<subseteq> set s" by (metis set_dropWhileD subsetI)
  finally show ?thesis .
qed

lemma py_strip_idem: "py_strip U (py_strip U s) = py_strip U s"
proof -
  define a where "a = dropWhile (u_isspace U) s"
  define b where "b = dropWhile (u_isspace U) (rev a)"
  have strip: "py_strip U s = rev b" by (simp add: py_strip_def a_def b_def)
  have front: "dropWhile (u_isspace U) (rev b) = rev b"
  proof (cases "b = []")
    case True
    then show ?thesis by simp
  next
    case False
    have "rev a = takeWhile (u_isspace U) (rev a) @ b" by (simp add: b_def)
    with False have "last (rev a) = last b" by (metis last_appendR)
    moreover from False have a: "a \<noteq> []" by (auto simp: b_def)
    ultimately have "last b = hd a" by (simp add: last_rev)
    moreover from a have "\<not> u_isspace U (hd a)" unfolding a_def by (rule hd_dropWhile)
    ultimately have "\<not> u_isspace U (hd (rev b))" using False by (simp add: hd_rev)
    with False show ?thesis by (cases "rev b") auto
  qed
  have rear: "dropWhile (u_isspace U) b = b" by (simp add: b_def)
  show ?thesis unfolding strip by (simp add: py_strip_def front rear)
qed

section \<open>The title is never empty\<close>

lemma py_strip_Nil: "py_strip U [] = []"
  by (simp add: py_strip_def)

lemma connective_consumes: "0 < min_width pat_connective"
  using patterns_consume by simp

lemma erase_all_Nil:
  "list_all (\<lambda>pat. 0 < min_width pat) pats \<Longrightarrow> erase_all U pats [] = []"
proof (induction pats)
  case Nil
  show ?case by (simp add: erase_all_def)
next
  case (Cons pat pats)
  from Cons.prems have "0 < min_width pat" by simp
  then have "re_sub U True pat [] None [] = []" by (rule re_sub_consuming(1))
  moreover from Cons have "erase_all U pats [] = []" by simp
  ultimately show ?case by (simp add: erase_all_def del: re_sub.simps)
qed

text \<open>
  C7. Let the text be one that the parse request admits, that is, not empty. When erasing
  the patterns and collapsing the white space leaves the empty string, and also when
  only the stripping that follows leaves it, \<open>_clean_title\<close> returns its input unmodified;
  and the title returned is never empty.
\<close>

theorem clean_title_nonempty:
  assumes "natural_language_input text"
  shows
    "(re_sub U False spaces1 [32] None (erase_all U cleanup_patterns text) = []
        \<longrightarrow> clean_title U text = text) \<and>
     (py_strip U (re_sub U True pat_connective [] None
        (re_sub U False spaces1 [32] None (erase_all U cleanup_patterns text))) = []
        \<longrightarrow> clean_title U text = text) \<and>
     clean_title U text \<noteq> []"
proof -
  have a: "clean_title U text = text"
    if "re_sub U False spaces1 [32] None (erase_all U cleanup_patterns text) = []"
  proof -
    from that have "stripped_title U text = py_strip U (re_sub U True pat_connective [] None [])"
      by (simp add: stripped_title_def)
    also have "\<dots> = []"
      by (simp only: re_sub_consuming(1) [OF connective_consumes] py_strip_Nil)
    finally show ?thesis by (simp add: clean_title_def)
  qed
  have b: "clean_title U text = text"
    if "py_strip U (re_sub U True pat_connective [] None
        (re_sub U False spaces1 [32] None (erase_all U cleanup_patterns text))) = []"
    using that by (simp add: clean_title_def stripped_title_def)
  from assms have "text \<noteq> []" by (auto simp: natural_language_input_def)
  then have c: "clean_title U text \<noteq> []" by (simp add: clean_title_def Let_def)
  from a b c show ?thesis by blast
qed

lemma erased_today:
  "re_sub ascii_cjk False spaces1 [32] None (erase_all ascii_cjk cleanup_patterns (ascii ''today'')) = []"
  by (simp add: clean_defs pattern_defs table_defs)

lemma stripped_space:
  "re_sub ascii_cjk False spaces1 [32] None (erase_all ascii_cjk cleanup_patterns [32]) = [32] \<and>
   py_strip ascii_cjk (re_sub ascii_cjk True pat_connective [] None
        (re_sub ascii_cjk False spaces1 [32] None (erase_all ascii_cjk cleanup_patterns [32]))) = []"
  by (simp add: clean_defs pattern_defs table_defs)

lemma clean_call_mum_today:
  "clean_title ascii_cjk (ascii ''call mum today'') = ascii ''call mum''"
  by (simp add: clean_defs pattern_defs table_defs)

text \<open>The witness: \<open>today\<close> is erased whole and comes back as it is; a single space is
  left by the patterns, stripped to nothing, and comes back as it is; and
  \<open>call mum today\<close> becomes \<open>call mum\<close>.\<close>

theorem clean_title_nonempty_witness:
  "natural_language_input (ascii ''today'') \<and>
   re_sub ascii_cjk False spaces1 [32] None
     (erase_all ascii_cjk cleanup_patterns (ascii ''today'')) = [] \<and>
   clean_title ascii_cjk (ascii ''today'') = ascii ''today'' \<and>
   natural_language_input [32] \<and>
   re_sub ascii_cjk False spaces1 [32] None (erase_all ascii_cjk cleanup_patterns [32]) = [32] \<and>
   py_strip ascii_cjk (re_sub ascii_cjk True pat_connective [] None
        (re_sub ascii_cjk False spaces1 [32] None (erase_all ascii_cjk cleanup_patterns [32]))) = [] \<and>
   clean_title ascii_cjk [32] = [32] \<and>
   natural_language_input (ascii ''call mum today'') \<and>
   clean_title ascii_cjk (ascii ''call mum today'') = ascii ''call mum'' \<and>
   clean_title ascii_cjk (ascii ''call mum today'') \<noteq> []"
proof -
  have v: "natural_language_input (ascii ''today'')" "natural_language_input [32]"
    "natural_language_input (ascii ''call mum today'')"
    by (simp_all add: natural_language_input_def ascii_def)
  from clean_title_nonempty [OF v(1), of ascii_cjk] erased_today
  have t: "clean_title ascii_cjk (ascii ''today'') = ascii ''today''" by blast
  from clean_title_nonempty [OF v(2), of ascii_cjk] stripped_space
  have s: "clean_title ascii_cjk [32] = [32]" by blast
  from clean_title_nonempty [OF v(3), of ascii_cjk]
  have m: "clean_title ascii_cjk (ascii ''call mum today'') \<noteq> []" by blast
  from v erased_today t stripped_space s clean_call_mum_today m show ?thesis by blast
qed


text \<open>The empty string, which the request does not admit, is the only text with an empty
  title.\<close>

lemma clean_title_empty_iff: "clean_title U text = [] \<longleftrightarrow> text = []"
proof
  assume "clean_title U text = []"
  then show "text = []" by (simp add: clean_title_def Let_def split: if_splits)
next
  assume t: "text = []"
  from patterns_consume have "list_all (\<lambda>pat. 0 < min_width pat) cleanup_patterns"
    and s: "0 < min_width spaces1"
    by simp_all
  then have "erase_all U cleanup_patterns [] = []" by (simp add: erase_all_Nil)
  then have "stripped_title U [] = []"
    by (simp only: stripped_title_def re_sub_consuming(1) [OF s]
        re_sub_consuming(1) [OF connective_consumes] py_strip_Nil)
  with t show "clean_title U text = []" by (simp add: clean_title_def)
qed


section \<open>Idempotence of title cleanup\<close>

lemma marker_free_parts:
  assumes "marker_free U s"
  shows "erase_all U cleanup_patterns s = s"
    and "re_sub U True pat_connective [] None s = s"
proof -
  from assms have all: "list_all (\<lambda>pat. re_search U True pat None s = None) cleanup_patterns"
    and conn: "re_search U True pat_connective None s = None"
    by (simp_all add: marker_free_def)
  from all show "erase_all U cleanup_patterns s = s" by (rule erase_all_no_match)
  from conn show "re_sub U True pat_connective [] None s = s" by (rule re_sub_no_match)
qed

lemma stripped_title_spaces:
  assumes "x \<in> set (stripped_title U t)" and "u_isspace U x"
  shows "x = 32"
proof -
  let ?w = "re_sub U False spaces1 [32] None (erase_all U cleanup_patterns t)"
  from assms(1) have "x \<in> set (re_sub U True pat_connective [] None ?w)"
    using set_py_strip by (auto simp: stripped_title_def)
  with re_sub_subset [of U True pat_connective "[]" None ?w] have "x \<in> set ?w" by auto
  from collapse_spaces_only [OF this assms(2)] show ?thesis .
qed

text \<open>
  C6 (amended). Title cleanup is idempotent on every input whose cleaned title holds no
  match of a cleanup pattern or of the connective pattern any more, and no two adjacent
  spaces: cleaning that title again returns it unchanged.
\<close>

theorem clean_title_idempotent_on_clean_titles:
  assumes "marker_free U (clean_title U t)"
    and "\<not> contains (clean_title U t) [32, 32]"
  shows "clean_title U (clean_title U t) = clean_title U t"
proof (cases "stripped_title U t = []")
  case True
  then have "clean_title U t = t" by (simp add: clean_title_def Let_def)
  then show ?thesis by simp
next
  case False
  define u where "u = stripped_title U t"
  from False have ct: "clean_title U t = u" by (simp add: clean_title_def Let_def u_def)
  from assms ct have mf: "marker_free U u" and ns: "\<not> contains u [32, 32]" by simp_all
  have sp: "\<forall>x \<in> set u. u_isspace U x \<longrightarrow> x = 32"
    using stripped_title_spaces unfolding u_def by blast
  have "py_strip U u = u" unfolding u_def stripped_title_def by (rule py_strip_idem)
  then have "stripped_title U u = u"
    by (simp add: stripped_title_def marker_free_parts [OF mf] collapse_fixed [OF sp ns])
  with False have "clean_title U u = u" by (simp add: clean_title_def Let_def u_def)
  with ct show ?thesis by simp
qed

lemma clean_buy_milk: "clean_title ascii_cjk (ascii ''Buy milk, today!'') = ascii ''Buy milk''"
  by (simp add: clean_defs pattern_defs table_defs)

lemma buy_milk_marker_free: "marker_free ascii_cjk (ascii ''Buy milk'')"
  by (simp add: marker_free_def pattern_defs table_defs)

theorem clean_title_idempotent_on_clean_titles_witness:
  "marker_free ascii_cjk (clean_title ascii_cjk (ascii ''Buy milk, today!'')) \<and>
   \<not> contains (clean_title ascii_cjk (ascii ''Buy milk, today!'')) [32, 32] \<and>
   clean_title ascii_cjk (ascii ''Buy milk, today!'') = ascii ''Buy milk'' \<and>
   clean_title ascii_cjk (clean_title ascii_cjk (ascii ''Buy milk, today!'')) = ascii ''Buy milk''"
proof -
  have m: "marker_free ascii_cjk (clean_title ascii_cjk (ascii ''Buy milk, today!''))"
    by (simp only: clean_buy_milk buy_milk_marker_free)
  have n: "\<not> contains (clean_title ascii_cjk (ascii ''Buy milk, today!'')) [32, 32]"
    unfolding clean_buy_milk by (simp add: ascii_def)
  from clean_title_idempotent_on_clean_titles [OF m n] m n clean_buy_milk
  show ?thesis by simp
qed

text \<open>
  C6 as stated fails: the punctuation is erased last, so erasing the comma of \<open>to,day x\<close>
  leaves \<open>today x\<close>, a title with a date marker that a second cleanup erases.
\<close>

lemma clean_to_day: "clean_title ascii_cjk (ascii ''to,day x'') = ascii ''today x''"
  by (simp add: clean_defs pattern_defs table_defs)

lemma clean_today_x: "clean_title ascii_cjk (ascii ''today x'') = ascii ''x''"
  by (simp add: clean_defs pattern_defs table_defs)

theorem clean_title_not_idempotent:
  "clean_title ascii_cjk (clean_title ascii_cjk (ascii ''to,day x'')) \<noteq>
     clean_title ascii_cjk (ascii ''to,day x'')"
  by (simp only: clean_to_day clean_today_x) (simp add: ascii_def)

end
